theory Spec2Isabelle
  imports Complex_Main "HOL-Library.Log_Nat"
begin

section \<open>Python values used by bot.py\<close>

text \<open>
  Strings are \<open>char list\<close>s. The non-ASCII characters of the messages (the emoji) are
  written as their UTF-8 bytes. Python integers are \<open>int\<close>; a value that may be
  \<open>None\<close> (a \<open>dict.get\<close> without the key) is an \<open>option\<close>.
\<close>

datatype py_error =
    ValueError
  | IndexError
  | TypeError
  | FileNotFoundError
  | IsADirectoryError
  | PermissionError
  | DownloadError string
  | OtherError string

definition digit_char :: "nat \<Rightarrow> char" where
  \<comment> \<open>the decimal digit \<open>d < 10\<close>\<close>
  "digit_char d = ''0123456789'' ! d"

fun str_nat :: "nat \<Rightarrow> string" where
  "str_nat n = (if n < 10 then [digit_char n] else str_nat (n div 10) @ [digit_char (n mod 10)])"

declare str_nat.simps [simp del]

definition str_int :: "int \<Rightarrow> string" where
  \<comment> \<open>\<open>str(n)\<close> / \<open>f"{n}"\<close> of a Python int\<close>
  "str_int n = (if n < 0 then CHR ''-'' # str_nat (nat (- n)) else str_nat (nat n))"

definition py_index :: "'a list \<Rightarrow> int \<Rightarrow> py_error + 'a" where
  \<comment> \<open>\<open>xs[i]\<close>: an index from \<open>-len(xs)\<close> to \<open>-1\<close> counts from the end; an index
      outside \<open>-len(xs) .. len(xs) - 1\<close> raises IndexError\<close>
  "py_index xs i =
     (if 0 \<le> i \<and> i < int (length xs) then Inr (xs ! nat i)
      else if i < 0 \<and> - int (length xs) \<le> i then Inr (xs ! nat (int (length xs) + i))
      else Inl IndexError)"

section \<open>Formatting helpers\<close>

subsection \<open>format_size\<close>

text \<open>
  \<^verbatim>\<open>
  def format_size(size_bytes):
      if size_bytes is None or size_bytes == 0:
          return ""
      size_name = ("B", "KB", "MB", "GB")
      i = int(math.floor(math.log(size_bytes, 1024)))
      p = pow(1024, i)
      s = round(size_bytes / p, 2)
      return f"({s} {size_name[i]})"
  \<close>
  The byte count is a Python int. The arithmetic is modelled exactly:
  \<^item> \<open>math.log(size_bytes, 1024)\<close> is the real logarithm, so the index is
    \<open>\<lfloor>log 1024 size_bytes\<rfloor>\<close>; \<open>math.log\<close> of a negative number raises ValueError;
  \<^item> \<open>size_bytes / p\<close> is the exact quotient (\<open>p\<close> is a power of two, so the binary64
    division is exact for every count below \<open>2 ^ 53\<close>);
  \<^item> \<open>round(x, 2)\<close> is the nearest multiple of \<open>1/100\<close>, an exact tie going to the even
    neighbour; the rounded value is kept as its number of hundredths;
  \<^item> \<open>f"{s}"\<close> of that float prints the integer part, a point, and the hundredths
    without a trailing zero (at least one digit after the point).
\<close>

definition size_name :: "string list" where
  "size_name = [''B'', ''KB'', ''MB'', ''GB'']"

definition magnitude_index :: "int \<Rightarrow> int" where
  \<comment> \<open>\<open>int(math.floor(math.log(size_bytes, 1024)))\<close>\<close>
  "magnitude_index size_bytes = \<lfloor>log 1024 (real_of_int size_bytes)\<rfloor>"

definition round_half_even :: "int \<Rightarrow> int \<Rightarrow> int" where
  \<comment> \<open>the integer nearest to \<open>a / b\<close> for \<open>b > 0\<close>, a tie going to the even one\<close>
  "round_half_even a b =
     (let q = a div b; r = a mod b
      in if 2 * r < b then q
         else if b < 2 * r then q + 1
         else if even q then q else q + 1)"

definition round2 :: "int \<Rightarrow> int \<Rightarrow> int" where
  \<comment> \<open>\<open>round(size_bytes / p, 2)\<close>, as a number of hundredths\<close>
  "round2 size_bytes p = round_half_even (100 * size_bytes) p"

definition float_str :: "int \<Rightarrow> string" where
  \<comment> \<open>\<open>f"{s}"\<close> for the float \<open>s = h / 100\<close>, \<open>h \<ge> 0\<close>\<close>
  "float_str h =
     str_int (h div 100) @ ''.'' @
     (if h mod 10 = 0 then [digit_char (nat (h mod 100 div 10))]
      else [digit_char (nat (h mod 100 div 10)), digit_char (nat (h mod 10))])"

definition format_size :: "int option \<Rightarrow> py_error + string" where
  "format_size size_bytes =
     (case size_bytes of
        None \<Rightarrow> Inr ''''
      | Some n \<Rightarrow>
          if n = 0 then Inr ''''
          else if n < 0 then Inl ValueError
          else
            let i = magnitude_index n;
                p = 1024 ^ nat i;
                s = round2 n p
            in (case py_index size_name i of
                  Inl e \<Rightarrow> Inl e
                | Inr unit_name \<Rightarrow> Inr (''('' @ float_str s @ '' '' @ unit_name @ '')'')))"

subsection \<open>escape_markdown_v2\<close>

text \<open>
  \<^verbatim>\<open>
  def escape_markdown_v2(text: str) -> str:
      escape_chars = r'_*[]()~`>#+-=|{}.!'
      return ''.join(f'\\{char}' if char in escape_chars else char for char in text)
  \<close>
\<close>

definition backslash :: char where
  "backslash = CHR 0x5C"

definition escape_chars :: string where
  "escape_chars = ''_*[]()~'' @ [CHR 0x60] @ ''>#+-=|{}.!''"

definition escape_markdown_v2 :: "string \<Rightarrow> string" where
  "escape_markdown_v2 text =
     concat (map (\<lambda>char. if char \<in> set escape_chars then [backslash, char] else [char]) text)"

section \<open>Strings: lower, substring test, split\<close>

definition lower_char :: "char \<Rightarrow> char" where
  \<comment> \<open>\<open>str.lower\<close> on one ASCII character; every other character is kept\<close>
  "lower_char c =
     (case map_of (zip ''ABCDEFGHIJKLMNOPQRSTUVWXYZ'' ''abcdefghijklmnopqrstuvwxyz'') c of
        None \<Rightarrow> c
      | Some l \<Rightarrow> l)"

definition lower :: "string \<Rightarrow> string" where
  "lower s = map lower_char s"

fun starts_with :: "string \<Rightarrow> string \<Rightarrow> bool" where
  "starts_with [] s = True"
| "starts_with (p # ps) [] = False"
| "starts_with (p # ps) (c # cs) = (p = c \<and> starts_with ps cs)"

fun contains :: "string \<Rightarrow> string \<Rightarrow> bool" where
  \<comment> \<open>\<open>sub in s\<close>\<close>
  "contains sub [] = (sub = [])"
| "contains sub (c # cs) = (starts_with sub (c # cs) \<or> contains sub cs)"

fun split_on :: "char \<Rightarrow> string \<Rightarrow> string list" where
  \<comment> \<open>\<open>s.split(d)\<close> for a one-character separator\<close>
  "split_on d [] = [[]]"
| "split_on d (c # cs) =
     (if c = d then [] # split_on d cs
      else (case split_on d cs of
              [] \<Rightarrow> [[c]]
            | w # ws \<Rightarrow> (c # w) # ws))"

definition str_opt :: "string option \<Rightarrow> string" where
  \<comment> \<open>\<open>f"{v}"\<close> of a value that is a string or None\<close>
  "str_opt v = (case v of None \<Rightarrow> ''None'' | Some s \<Rightarrow> s)"

section \<open>The data model\<close>

text \<open>
  A format descriptor is a dictionary of the extraction service. The fields the handler
  reads with \<open>f.get(...)\<close> may be absent and are options; \<open>format_id\<close> is read with
  \<open>f['format_id']\<close> and is taken to be present. Heights and sizes are Python ints.

  A key of the metadata dictionary read with a default other than \<open>None\<close> has three
  cases, which the code tells apart: the key is absent (the default is taken), the key is
  present with the value \<open>None\<close> (\<open>None\<close> is taken), or it is present with a value.
  The title kept in the session state is therefore a string or \<open>None\<close>.
\<close>

datatype 'a entry = Missing | NoneValue | Value 'a

datatype py_value = PyNone | PyStr string

record format_descriptor =
  vcodec :: "string option"
  acodec :: "string option"
  ext :: "string option"
  height :: "int option"
  filesize :: "int option"
  filesize_approx :: "int option"
  format_id :: string

record info_dict =
  title :: "string entry"
  thumbnail :: "string option"
  video_id :: "string option"
  formats :: "format_descriptor list entry"

record button =
  label :: string
  callback_data :: string

type_synonym keyboard = "button list list"

type_synonym user_data = "string \<rightharpoonup> py_value"

datatype action =
    ReplyText string
  | EditText string
  | DeleteProcessingMessage
  | ReplyPhoto string string keyboard
  | ReplyTextMarkup string keyboard
  | EditCaption string
  | SendAudio string py_value
  | SendVideo string py_value
  | DeleteMessage

section \<open>The Link Handler (url_handler)\<close>

definition clapper :: string where
  "clapper = [CHR 0xF0, CHR 0x9F, CHR 0x8E, CHR 0xAC]"

definition music_note :: string where
  "music_note = [CHR 0xF0, CHR 0x9F, CHR 0x8E, CHR 0xB5]"

definition hourglass :: string where
  "hourglass = [CHR 0xE2, CHR 0x8F, CHR 0xB3]"

definition cross :: string where
  "cross = [CHR 0xE2, CHR 0x9D, CHR 0x8C]"

definition rocket :: string where
  "rocket = [CHR 0xF0, CHR 0x9F, CHR 0x9A, CHR 0x80]"

definition truthy_int :: "int option \<Rightarrow> bool" where
  "truthy_int v = (case v of None \<Rightarrow> False | Some n \<Rightarrow> n \<noteq> 0)"

definition py_or :: "int option \<Rightarrow> int option \<Rightarrow> int option" where
  \<comment> \<open>\<open>a or b\<close>\<close>
  "py_or a b = (if truthy_int a then a else b)"

definition video_filter :: "format_descriptor \<Rightarrow> bool" where
  \<comment> \<open>\<open>f.get('vcodec') != 'none' and f.get('ext') == 'mp4' and f.get('height')\<close>\<close>
  "video_filter f \<longleftrightarrow>
     vcodec f \<noteq> Some ''none'' \<and> ext f = Some ''mp4'' \<and> truthy_int (height f)"

definition height_key :: "format_descriptor \<Rightarrow> int" where
  \<comment> \<open>\<open>x.get('height', 0)\<close>\<close>
  "height_key x = (case height x of None \<Rightarrow> 0 | Some h \<Rightarrow> h)"

definition video_formats :: "format_descriptor list \<Rightarrow> format_descriptor list" where
  \<comment> \<open>\<open>sorted(..., key=..., reverse=True)\<close>: descending by key, equal keys keep their order\<close>
  "video_formats fmts = sort_key (\<lambda>x. - height_key x) (filter video_filter fmts)"

definition file_size :: "format_descriptor \<Rightarrow> int option" where
  \<comment> \<open>\<open>f.get('filesize') or f.get('filesize_approx')\<close>\<close>
  "file_size f = py_or (filesize f) (filesize_approx f)"

definition video_token :: "string \<Rightarrow> int \<Rightarrow> string" where
  "video_token vid h = ''video:'' @ vid @ '':'' @ str_int h"

definition audio_token :: "string \<Rightarrow> string \<Rightarrow> string" where
  "audio_token vid fid = ''audio:'' @ vid @ '':'' @ fid"

definition video_button :: "string \<Rightarrow> format_descriptor \<Rightarrow> int \<Rightarrow> py_error + button" where
  "video_button vid f h =
     (case format_size (file_size f) of
        Inl e \<Rightarrow> Inl e
      | Inr sz \<Rightarrow>
          Inr \<lparr>label = clapper @ '' '' @ str_int h @ ''p '' @ sz,
               callback_data = video_token vid h\<rparr>)"

fun video_loop ::
  "string \<Rightarrow> format_descriptor list \<Rightarrow> int set \<Rightarrow> keyboard \<Rightarrow> py_error + (int set \<times> keyboard)"
where
  "video_loop vid [] added_resolutions kb = Inr (added_resolutions, kb)"
| "video_loop vid (f # fs) added_resolutions kb =
     (case height f of
        None \<Rightarrow> video_loop vid fs added_resolutions kb
      | Some h \<Rightarrow>
          if h \<noteq> 0 \<and> h \<notin> added_resolutions then
            (case video_button vid f h of
               Inl e \<Rightarrow> Inl e
             | Inr b \<Rightarrow> video_loop vid fs (insert h added_resolutions) (kb @ [[b]]))
          else video_loop vid fs added_resolutions kb)"

definition video_buttons :: "string \<Rightarrow> format_descriptor list \<Rightarrow> py_error + keyboard" where
  "video_buttons vid fmts =
     (case video_loop vid (video_formats fmts) {} [] of
        Inl e \<Rightarrow> Inl e
      | Inr (added_resolutions, kb) \<Rightarrow> Inr kb)"

definition audio_filter :: "format_descriptor \<Rightarrow> bool" where
  \<comment> \<open>\<open>f.get('acodec') != 'none' and f.get('vcodec') == 'none' and f.get('ext') in [...]\<close>\<close>
  "audio_filter f \<longleftrightarrow>
     acodec f \<noteq> Some ''none'' \<and> vcodec f = Some ''none'' \<and>
     ext f \<in> set [Some ''m4a'', Some ''webm'', Some ''mp3'']"

definition best_audio :: "format_descriptor list \<Rightarrow> format_descriptor option" where
  \<comment> \<open>\<open>next((f for f in reversed(formats) if ...), None)\<close>\<close>
  "best_audio fmts = find audio_filter (rev fmts)"

definition audio_buttons :: "string \<Rightarrow> format_descriptor list \<Rightarrow> py_error + keyboard" where
  "audio_buttons vid fmts =
     (case best_audio fmts of
        None \<Rightarrow> Inr []
      | Some f \<Rightarrow>
          (case format_size (file_size f) of
             Inl e \<Rightarrow> Inl e
           | Inr sz \<Rightarrow>
               Inr [[\<lparr>label = music_note @ '' Audio '' @ sz,
                      callback_data = audio_token vid (format_id f)\<rparr>]]))"

definition build_keyboard :: "string \<Rightarrow> format_descriptor list \<Rightarrow> py_error + keyboard" where
  \<comment> \<open>the video buttons, then the audio button, appended to the one list \<open>keyboard\<close>\<close>
  "build_keyboard vid fmts =
     (case video_buttons vid fmts of
        Inl e \<Rightarrow> Inl e
      | Inr kb \<Rightarrow>
          (case audio_buttons vid fmts of
             Inl e \<Rightarrow> Inl e
           | Inr ab \<Rightarrow> Inr (kb @ ab)))"

definition msg_processing :: string where
  "msg_processing = hourglass @ '' Processing link...''"

definition msg_no_formats :: string where
  "msg_no_formats = ''Sorry, no suitable download formats were found.''"

definition msg_unavailable :: string where
  "msg_unavailable =
     cross @ '' Failed: This video is private, has been deleted, or is unavailable.''"

definition msg_invalid_url :: string where
  "msg_invalid_url =
     cross @ '' This doesn'' @ [CHR 0x27] @ ''t look like a valid link. Please try again.''"

definition msg_other_failure :: string where
  "msg_other_failure =
     cross @ '' Failed to process the link. The video may be region-locked or unsupported.''"

definition msg_unexpected :: string where
  "msg_unexpected = cross @ '' An unexpected error occurred. Please try again later.''"

definition extraction_error_message :: "py_error \<Rightarrow> string" where
  \<comment> \<open>the two \<open>except\<close> clauses of url_handler\<close>
  "extraction_error_message e =
     (case e of
        DownloadError msg \<Rightarrow>
          (let error_str = lower msg
           in if contains ''video unavailable'' error_str \<or> contains ''private video'' error_str
              then msg_unavailable
              else if contains ''is not a valid url'' error_str then msg_invalid_url
              else msg_other_failure)
      | _ \<Rightarrow> msg_unexpected)"

definition truthy_str :: "string option \<Rightarrow> bool" where
  "truthy_str v = (case v of None \<Rightarrow> False | Some s \<Rightarrow> s \<noteq> [])"

definition title_of :: "info_dict \<Rightarrow> py_value" where
  \<comment> \<open>\<open>info_dict.get('title', 'No Title')\<close>\<close>
  "title_of info =
     (case title info of
        Missing \<Rightarrow> PyStr ''No Title''
      | NoneValue \<Rightarrow> PyNone
      | Value s \<Rightarrow> PyStr s)"

definition formats_of :: "info_dict \<Rightarrow> py_error + format_descriptor list" where
  \<comment> \<open>\<open>info_dict.get('formats', [])\<close>, as the comprehension of line 71 iterates it:
      \<open>None\<close> is not iterable\<close>
  "formats_of info =
     (case formats info of
        Missing \<Rightarrow> Inr []
      | NoneValue \<Rightarrow> Inl TypeError
      | Value fs \<Rightarrow> Inr fs)"

definition caption_of :: "py_value \<Rightarrow> py_error + string" where
  \<comment> \<open>\<open>f"*{escape_markdown_v2(title)}*"\<close>: the escaper iterates its argument, and
      \<open>None\<close> is not iterable\<close>
  "caption_of t =
     (case t of
        PyNone \<Rightarrow> Inl TypeError
      | PyStr s \<Rightarrow> Inr (''*'' @ escape_markdown_v2 s @ ''*''))"

definition url_handler :: "(py_error + info_dict) \<Rightarrow> user_data \<Rightarrow> user_data \<times> action list" where
  \<comment> \<open>\<open>extracted\<close> is what \<open>ydl.extract_info(url, download=False)\<close> returned or raised;
      the calls of the chat transport are taken to succeed\<close>
  "url_handler extracted ud =
     (case extracted of
        Inl e \<Rightarrow> (ud, [ReplyText msg_processing, EditText (extraction_error_message e)])
      | Inr info \<Rightarrow>
          let t = title_of info;
              ud' = ud(''video_title'' \<mapsto> t)
          in (case formats_of info of
                Inl e \<Rightarrow> (ud', [ReplyText msg_processing, EditText (extraction_error_message e)])
              | Inr fmts \<Rightarrow>
                  (case build_keyboard (str_opt (video_id info)) fmts of
                     Inl e \<Rightarrow>
                       (ud', [ReplyText msg_processing, EditText (extraction_error_message e)])
                   | Inr kb \<Rightarrow>
                       if kb = [] then (ud', [ReplyText msg_processing, EditText msg_no_formats])
                       else
                         (case caption_of t of
                            Inl e \<Rightarrow>
                              (ud', [ReplyText msg_processing,
                                     EditText (extraction_error_message e)])
                          | Inr caption \<Rightarrow>
                              (ud', [ReplyText msg_processing, DeleteProcessingMessage,
                                     if truthy_str (thumbnail info)
                                     then ReplyPhoto (the (thumbnail info)) caption kb
                                     else ReplyTextMarkup caption kb])))))"

section \<open>The Selection Handler (download_button_callback)\<close>

definition parse_token :: "string \<Rightarrow> py_error + (string \<times> string \<times> string)" where
  \<comment> \<open>\<open>download_type, video_id, quality_or_id = query.data.split(':')\<close>\<close>
  "parse_token d =
     (case split_on CHR '':'' d of
        [download_type, vid, quality_or_id] \<Rightarrow> Inr (download_type, vid, quality_or_id)
      | _ \<Rightarrow> Inl ValueError)"

definition watch_url :: "string \<Rightarrow> string" where
  "watch_url vid = ''https://www.youtube.com/watch?v='' @ vid"

definition file_path_of :: "int \<Rightarrow> string \<Rightarrow> string \<Rightarrow> string" where
  "file_path_of user_id vid download_type =
     str_int user_id @ ''_'' @ vid @ ''.'' @ (if download_type = ''audio'' then ''m4a'' else ''mp4'')"

definition download_format_of :: "string \<Rightarrow> string \<Rightarrow> string" where
  "download_format_of download_type quality_or_id =
     (if download_type = ''video''
      then ''bestvideo[height<='' @ quality_or_id @ ''][ext=mp4]+bestaudio[ext=m4a]/best[height<=''
             @ quality_or_id @ ''][ext=mp4]/best''
      else quality_or_id)"

record ydl_opts =
  opt_format :: string
  opt_outtmpl :: string
  opt_quiet :: bool
  opt_noplaylist :: bool
  opt_merge_output_format :: string

definition make_ydl_opts :: "string \<Rightarrow> string \<Rightarrow> ydl_opts" where
  "make_ydl_opts download_format file_path =
     \<lparr>opt_format = download_format, opt_outtmpl = file_path, opt_quiet = True,
      opt_noplaylist = True, opt_merge_output_format = ''mp4''\<rparr>"

text \<open>
  The file system maps a path to what is there: nothing, a regular file or a directory.
  A path exists when \<open>os.path.exists\<close> says so, that is, when it is mapped.
  What the collaborators do is a parameter of the handler: the download service maps the
  options, the URL and the file system to the exception it raised (if any) and the file
  system it left; each call of the chat transport either succeeds or raises; the
  operating system lets the process remove a regular file or refuses (\<open>remove_ok\<close>).
\<close>

datatype node = RegularFile | Directory

type_synonym filesystem = "string \<rightharpoonup> node"

record collaborators =
  answer_ok :: bool
  preparing_edit_ok :: bool
  download :: "ydl_opts \<Rightarrow> string \<Rightarrow> filesystem \<Rightarrow> py_error option \<times> filesystem"
  uploading_edit_ok :: bool
  send_ok :: bool
  delete_ok :: bool
  error_edit_ok :: bool
  remove_ok :: bool

record callback_query =
  query_data :: string
  from_user_id :: int

definition msg_preparing :: string where
  "msg_preparing = hourglass @ '' Preparing download...''"

definition msg_uploading :: string where
  "msg_uploading = rocket @ '' Uploading to Telegram...''"

definition msg_download_failed :: string where
  "msg_download_failed =
     cross @ '' *Download Failed*'' @ [backslash] @ ''n'' @ [backslash] @
     ''n'' @ ''This could be due to a YouTube error or a protected video'' @ [backslash] @ ''.''"

definition msg_generic_failed :: string where
  "msg_generic_failed =
     cross @ '' *An Unexpected Error Occurred*'' @ [backslash] @ ''n'' @ [backslash] @
     ''n'' @ ''Please try again later'' @ [backslash] @ ''.''"

definition transport_error :: py_error where
  "transport_error = OtherError ''transport''"

definition open_rb :: "string \<Rightarrow> filesystem \<Rightarrow> py_error option" where
  \<comment> \<open>\<open>open(file_path, 'rb')\<close>: the exception it raises, if any\<close>
  "open_rb file_path fs =
     (case fs file_path of
        None \<Rightarrow> Some FileNotFoundError
      | Some Directory \<Rightarrow> Some IsADirectoryError
      | Some RegularFile \<Rightarrow> None)"

definition try_body ::
  "collaborators \<Rightarrow> string \<Rightarrow> string \<Rightarrow> ydl_opts \<Rightarrow> string \<Rightarrow> py_value \<Rightarrow> filesystem
     \<Rightarrow> py_error option \<times> action list \<times> filesystem"
where
  \<comment> \<open>the body of the second \<open>try\<close>: the exception that left it (if any), the transport
      calls that succeeded, the file system\<close>
  "try_body w download_type url opts file_path t fs =
     (case download w opts url fs of
        (Some e, fs1) \<Rightarrow> (Some e, [], fs1)
      | (None, fs1) \<Rightarrow>
          if \<not> uploading_edit_ok w then (Some transport_error, [], fs1)
          else
            (case open_rb file_path fs1 of
               Some e \<Rightarrow> (Some e, [EditCaption msg_uploading], fs1)
             | None \<Rightarrow>
                 let sent = (if download_type = ''audio'' then SendAudio file_path t
                             else SendVideo file_path t)
                 in if \<not> send_ok w then (Some transport_error, [EditCaption msg_uploading], fs1)
                    else if \<not> delete_ok w
                    then (Some transport_error, [EditCaption msg_uploading, sent], fs1)
                    else (None, [EditCaption msg_uploading, sent, DeleteMessage], fs1)))"

definition except_clauses :: "collaborators \<Rightarrow> py_error \<Rightarrow> py_error option \<times> action list" where
  \<comment> \<open>\<open>except DownloadError\<close>, then \<open>except Exception\<close>; the edit of the caption may
      itself raise\<close>
  "except_clauses w e =
     (let error_message = (case e of DownloadError msg \<Rightarrow> msg_download_failed
                                   | _ \<Rightarrow> msg_generic_failed)
      in if error_edit_ok w then (None, [EditCaption error_message])
         else (Some transport_error, []))"

definition cleanup :: "collaborators \<Rightarrow> string \<Rightarrow> filesystem \<Rightarrow> py_error option \<times> filesystem" where
  \<comment> \<open>\<open>finally: if os.path.exists(file_path): os.remove(file_path)\<close>: the exception it
      raises (if any) and the file system it leaves. \<open>os.path.exists\<close> is true of a
      directory too, and \<open>os.remove\<close> of a directory raises; \<open>os.remove\<close> of a regular
      file raises when the operating system refuses.\<close>
  "cleanup w file_path fs =
     (case fs file_path of
        None \<Rightarrow> (None, fs)
      | Some Directory \<Rightarrow> (Some IsADirectoryError, fs)
      | Some RegularFile \<Rightarrow>
          if remove_ok w then (None, fs(file_path := None))
          else (Some PermissionError, fs))"

definition selection_request ::
  "callback_query \<Rightarrow> py_error + (string \<times> string \<times> string \<times> ydl_opts)"
where
  \<comment> \<open>lines 122 to 143: the download type, the URL, the file path and the options that
      the handler computes from the button press; ValueError when the token does not split
      into three fields\<close>
  "selection_request query =
     (case parse_token (query_data query) of
        Inl e \<Rightarrow> Inl e
      | Inr (download_type, vid, quality_or_id) \<Rightarrow>
          let url = watch_url vid;
              file_path = file_path_of (from_user_id query) vid download_type;
              download_format = download_format_of download_type quality_or_id
          in Inr (download_type, url, file_path, make_ydl_opts download_format file_path))"

definition download_button_callback ::
  "collaborators \<Rightarrow> callback_query \<Rightarrow> user_data \<Rightarrow> filesystem
     \<Rightarrow> py_error option \<times> action list \<times> filesystem"
where
  \<comment> \<open>returns the exception that escaped the handler (if any), the transport calls that
      succeeded and the file system at the end; an exception raised in the \<open>finally\<close>
      clause replaces the one that was on its way out\<close>
  "download_button_callback w query ud fs =
     (if \<not> answer_ok w then (Some transport_error, [], fs)
      else
        (case selection_request query of
           Inl e \<Rightarrow> (Some e, [], fs)
         | Inr (download_type, url, file_path, opts) \<Rightarrow>
             let acts0 = (if preparing_edit_ok w then [EditCaption msg_preparing] else []);
                 t = (case ud ''video_title'' of None \<Rightarrow> PyStr ''video'' | Some v \<Rightarrow> v)
             in (case try_body w download_type url opts file_path t fs of
                   (raised, acts1, fs1) \<Rightarrow>
                     (case (case raised of
                              None \<Rightarrow> (None, [])
                            | Some e \<Rightarrow> except_clauses w e) of
                        (esc, acts2) \<Rightarrow>
                          (case cleanup w file_path fs1 of
                             (None, fs2) \<Rightarrow> (esc, acts0 @ acts1 @ acts2, fs2)
                           | (Some e, fs2) \<Rightarrow> (Some e, acts0 @ acts1 @ acts2, fs2))))))"

section \<open>The selector as the spec describes it\<close>

text \<open>
  A format selector of the download service is a list of alternatives separated by
  \<open>/\<close>, tried in order; an alternative merges streams joined by \<open>+\<close>; a stream is a
  name followed by filters in brackets.
\<close>

datatype stream_filter = HeightAtMost string | Ext string

type_synonym stream_spec = "string \<times> stream_filter list"

fun render_filter :: "stream_filter \<Rightarrow> string" where
  "render_filter (HeightAtMost h) = ''[height<='' @ h @ '']''"
| "render_filter (Ext e) = ''[ext='' @ e @ '']''"

definition render_stream :: "stream_spec \<Rightarrow> string" where
  "render_stream s = fst s @ concat (map render_filter (snd s))"

fun join :: "string \<Rightarrow> string list \<Rightarrow> string" where
  "join sep [] = []"
| "join sep [x] = x"
| "join sep (x # y # ys) = x @ sep @ join sep (y # ys)"

definition render_selector :: "stream_spec list list \<Rightarrow> string" where
  "render_selector alts = join ''/'' (map (\<lambda>alt. join ''+'' (map render_stream alt)) alts)"

definition spec_selector :: "string \<Rightarrow> stream_spec list list" where
  \<comment> \<open>The spec's words: best video at the height in the fixed container plus best audio in
      the fixed container; then best at the height in any container; then best.\<close>
  "spec_selector h =
     [[(''bestvideo'', [HeightAtMost h, Ext ''mp4'']), (''bestaudio'', [Ext ''m4a''])],
      [(''best'', [HeightAtMost h])],
      [(''best'', [])]]"

definition code_selector :: "string \<Rightarrow> stream_spec list list" where
  \<comment> \<open>The selector the handler builds, read as alternatives.\<close>
  "code_selector h =
     [[(''bestvideo'', [HeightAtMost h, Ext ''mp4'']), (''bestaudio'', [Ext ''m4a''])],
      [(''best'', [HeightAtMost h, Ext ''mp4''])],
      [(''best'', [])]]"

definition ends_with :: "string \<Rightarrow> string \<Rightarrow> bool" where
  "ends_with s suffix = starts_with (rev suffix) (rev s)"

section \<open>Notions used to state the properties\<close>

fun unescape :: "string \<Rightarrow> string" where
  \<comment> \<open>reads escaped text back: an escape marker followed by a character of the
      punctuation set stands for that character\<close>
  "unescape [] = []"
| "unescape [c] = [c]"
| "unescape (c # d # cs) =
     (if c = backslash \<and> d \<in> set escape_chars then d # unescape cs
      else c # unescape (d # cs))"

fun selected_formats :: "format_descriptor list \<Rightarrow> int set \<Rightarrow> format_descriptor list" where
  \<comment> \<open>the formats for which the loop of the video buttons appends a button, given the
      heights already added\<close>
  "selected_formats [] added_resolutions = []"
| "selected_formats (f # fs) added_resolutions =
     (case height f of
        None \<Rightarrow> selected_formats fs added_resolutions
      | Some h \<Rightarrow>
          if h \<noteq> 0 \<and> h \<notin> added_resolutions
          then f # selected_formats fs (insert h added_resolutions)
          else selected_formats fs added_resolutions)"

definition example_formats :: "format_descriptor list" where
  \<comment> \<open>a format list with two mp4 video formats of height 720, one of height 1080, a webm
      video format and two audio-only formats\<close>
  "example_formats =
     [\<lparr>vcodec = Some ''avc1'', acodec = Some ''none'', ext = Some ''mp4'', height = Some 720,
       filesize = None, filesize_approx = Some 1048576, format_id = ''136''\<rparr>,
      \<lparr>vcodec = Some ''avc1'', acodec = Some ''none'', ext = Some ''mp4'', height = Some 1080,
       filesize = Some 5000000, filesize_approx = None, format_id = ''137''\<rparr>,
      \<lparr>vcodec = Some ''vp9'', acodec = Some ''none'', ext = Some ''webm'', height = Some 1080,
       filesize = Some 4000000, filesize_approx = None, format_id = ''248''\<rparr>,
      \<lparr>vcodec = Some ''avc1'', acodec = Some ''mp4a'', ext = Some ''mp4'', height = Some 720,
       filesize = Some 3000000, filesize_approx = None, format_id = ''22''\<rparr>,
      \<lparr>vcodec = Some ''none'', acodec = Some ''opus'', ext = Some ''webm'', height = None,
       filesize = Some 2048, filesize_approx = None, format_id = ''251''\<rparr>,
      \<lparr>vcodec = Some ''none'', acodec = Some ''mp4a.40.2'', ext = Some ''m4a'', height = None,
       filesize = Some 1536, filesize_approx = None, format_id = ''140''\<rparr>]"

definition example_query :: callback_query where
  \<comment> \<open>user 42 presses the 720p button of video abc123\<close>
  "example_query = \<lparr>query_data = ''video:abc123:720'', from_user_id = 42\<rparr>"

definition example_world :: "py_error option \<Rightarrow> node option \<Rightarrow> bool \<Rightarrow> collaborators" where
  \<comment> \<open>a download service that raises \<open>raised\<close> (if anything) and leaves \<open>left\<close> at the
      output path, a chat transport whose calls all succeed, and an operating system that
      lets a regular file be removed or not\<close>
  "example_world raised left removable =
     \<lparr>answer_ok = True, preparing_edit_ok = True,
      download = (\<lambda>opts url fs. (raised, fs(opt_outtmpl opts := left))),
      uploading_edit_ok = True, send_ok = True, delete_ok = True, error_edit_ok = True,
      remove_ok = removable\<rparr>"

section \<open>Properties of format_size\<close>

lemma magnitude_index_eq:
  assumes "0 < n" and "1024 ^ k \<le> n" and "n < 1024 ^ (k + 1)"
  shows "magnitude_index n = int k"
proof -
  have "\<lfloor>log (real 1024) (real (nat n))\<rfloor> = int k"
    using assms
    by (subst floor_log_nat_eq_powr_iff) (auto simp: le_nat_iff nat_less_iff)
  then show ?thesis
    using assms by (simp add: magnitude_index_def)
qed

lemma magnitude_index_code:
  "0 < n \<Longrightarrow> magnitude_index n = int (floorlog 1024 (nat n)) - 1"
  by (simp add: magnitude_index_def floorlog_def)

lemma magnitude_index_ge:
  assumes "1024 ^ k \<le> n"
  shows "int k \<le> magnitude_index n"
proof -
  have pos: "0 < n"
  proof -
    have "(0::int) < 1024 ^ k" by simp
    with assms show ?thesis by linarith
  qed
  have "real_of_int (1024 ^ k) \<le> real_of_int n"
    using assms by linarith
  then have "log 1024 (1024 ^ k) \<le> log 1024 (real_of_int n)"
    using pos by (subst log_le_cancel_iff) auto
  then have "real k \<le> log 1024 (real_of_int n)"
    by (simp add: log_nat_power)
  then show ?thesis
    by (simp add: magnitude_index_def le_floor_iff)
qed

lemma magnitude_index_less:
  assumes "0 < n" and "n < 1024 ^ k"
  shows "magnitude_index n < int k"
proof -
  have "real_of_int n < real_of_int (1024 ^ k)"
    using assms by linarith
  then have "log 1024 (real_of_int n) < log 1024 (1024 ^ k)"
    using assms by (subst log_less_cancel_iff) auto
  then have "log 1024 (real_of_int n) < real k"
    by (simp add: log_nat_power)
  then show ?thesis
    by (simp add: magnitude_index_def floor_less_iff)
qed

text \<open>
  The index is computed on integers by \<open>floorlog\<close>, which gives \<open>format_size\<close> an
  executable equation.
\<close>

lemma format_size_code [code]:
  "format_size size_bytes =
     (case size_bytes of
        None \<Rightarrow> Inr ''''
      | Some n \<Rightarrow>
          if n = 0 then Inr ''''
          else if n < 0 then Inl ValueError
          else
            let i = int (floorlog 1024 (nat n)) - 1;
                p = 1024 ^ nat i;
                s = round2 n p
            in (case py_index size_name i of
                  Inl e \<Rightarrow> Inl e
                | Inr unit_name \<Rightarrow> Inr (''('' @ float_str s @ '' '' @ unit_name @ '')'')))"
  by (auto simp: format_size_def magnitude_index_code Let_def split: option.splits)

lemmas format_size_eval =
  format_size_code compute_floorlog py_index_def size_name_def round2_def
  round_half_even_def float_str_def str_int_def str_nat.simps digit_char_def

lemma round_half_even_nearest:
  assumes "0 < b"
  shows "2 * \<bar>a - round_half_even a b * b\<bar> \<le> b"
proof -
  define q where "q = a div b"
  define r where "r = a mod b"
  have a: "a = q * b + r"
    by (simp add: q_def r_def)
  have r: "0 \<le> r" "r < b"
    using assms by (simp_all add: r_def)
  have "round_half_even a b = q \<and> 2 * r \<le> b \<or> round_half_even a b = q + 1 \<and> b \<le> 2 * r"
    by (auto simp: round_half_even_def Let_def q_def r_def)
  then show ?thesis
  proof
    assume h: "round_half_even a b = q \<and> 2 * r \<le> b"
    then have "a - round_half_even a b * b = r" using a by simp
    with h r show ?thesis by simp
  next
    assume h: "round_half_even a b = q + 1 \<and> b \<le> 2 * r"
    then have "a - round_half_even a b * b = r - b" using a by (simp add: algebra_simps)
    with h r show ?thesis by simp
  qed
qed

lemma starts_with_append: "starts_with p (p @ s)"
  by (induction p) auto

lemma ends_with_append: "ends_with (s @ suffix) suffix"
  by (simp add: ends_with_def starts_with_append)

lemma magnitude_index_cases:
  assumes "0 < n" "n < 1024 ^ 4"
  shows "\<exists>i<4. 1024 ^ i \<le> n \<and> n < 1024 ^ (i + 1) \<and> magnitude_index n = int i"
proof -
  have lo: "0 \<le> magnitude_index n"
    using magnitude_index_ge [of 0 n] assms by simp
  have hi: "magnitude_index n < 4"
    using magnitude_index_less [of n 4] assms by simp
  define i where "i = nat (magnitude_index n)"
  have i: "magnitude_index n = int i" "i < 4"
    using lo hi by (simp_all add: i_def)
  have "real_of_int n > 0" using assms by simp
  then have "(1024::real) powr (real_of_int (int i)) \<le> real_of_int n \<and>
             real_of_int n < 1024 powr (real_of_int (int i) + 1)"
    using i(1) floor_log_eq_powr_iff [of "real_of_int n" 1024 "int i"]
    by (simp add: magnitude_index_def)
  then have "(1024::real) ^ i \<le> real_of_int n \<and> real_of_int n < 1024 ^ (i + 1)"
    by (simp add: powr_realpow powr_add)
  then have "real_of_int (1024 ^ i) \<le> real_of_int n \<and> real_of_int n < real_of_int (1024 ^ (i + 1))"
    by simp
  then have "1024 ^ i \<le> n \<and> n < 1024 ^ (i + 1)"
    by linarith
  with i show ?thesis by blast
qed

text \<open>
  C4, as the code has it. For no byte count (\<open>None\<close>) and for 0 the result is the empty
  string. For a byte count \<open>n\<close> with \<open>0 < n < 1024 ^ 4\<close> there is an index \<open>i < 4\<close> with
  \<open>1024 ^ i \<le> n < 1024 ^ (i + 1)\<close>, which is the index \<open>\<lfloor>log 1024 n\<rfloor>\<close> the code
  computes; the unit is the \<open>i\<close>-th of B, KB, MB, GB; the printed value is within half a
  hundredth of \<open>n / 1024 ^ i\<close>; and the result is the value and the unit in parentheses,
  so it ends in the unit followed by the closing parenthesis. The bound \<open>n < 1024 ^ 4\<close>
  is needed.
\<close>

theorem format_size_result:
  "format_size None = Inr '''' \<and>
   format_size (Some 0) = Inr '''' \<and>
   (0 < n \<and> n < 1024 ^ 4 \<longrightarrow>
      (\<exists>i<4. 1024 ^ i \<le> n \<and> n < 1024 ^ (i + 1) \<and> magnitude_index n = int i \<and>
         size_name ! i \<in> {''B'', ''KB'', ''MB'', ''GB''} \<and>
         2 * \<bar>100 * n - round2 n (1024 ^ i) * 1024 ^ i\<bar> \<le> 1024 ^ i \<and>
         format_size (Some n) =
           Inr (''('' @ float_str (round2 n (1024 ^ i)) @ '' '' @ size_name ! i @ '')'') \<and>
         (\<exists>s. format_size (Some n) = Inr s \<and> ends_with s (size_name ! i @ '')''))))"
proof (intro conjI impI)
  show "format_size None = Inr ''''" by (simp add: format_size_def)
  show "format_size (Some 0) = Inr ''''" by (simp add: format_size_def)
next
  assume a: "0 < n \<and> n < 1024 ^ 4"
  then obtain i where i: "i < 4" "1024 ^ i \<le> n" "n < 1024 ^ (i + 1)" "magnitude_index n = int i"
    using magnitude_index_cases [of n] by blast
  have u: "py_index size_name (int i) = Inr (size_name ! i)"
    using i(1) by (simp add: py_index_def size_name_def)
  have f: "format_size (Some n) =
      Inr (''('' @ float_str (round2 n (1024 ^ i)) @ '' '' @ size_name ! i @ '')'')"
    using a i(4) u by (simp add: format_size_def Let_def)
  have m: "size_name ! i \<in> {''B'', ''KB'', ''MB'', ''GB''}"
  proof -
    from i(1) have "i = 0 \<or> i = 1 \<or> i = 2 \<or> i = 3" by arith
    then show ?thesis by (auto simp: size_name_def)
  qed
  have r: "2 * \<bar>100 * n - round2 n (1024 ^ i) * 1024 ^ i\<bar> \<le> 1024 ^ i"
    unfolding round2_def by (rule round_half_even_nearest) simp
  have e: "ends_with (''('' @ float_str (round2 n (1024 ^ i)) @ '' '' @ size_name ! i @ '')'')
             (size_name ! i @ '')'')"
    using ends_with_append
      [of "''('' @ float_str (round2 n (1024 ^ i)) @ '' ''" "size_name ! i @ '')''"]
    by simp
  show "\<exists>i<4. 1024 ^ i \<le> n \<and> n < 1024 ^ (i + 1) \<and> magnitude_index n = int i \<and>
         size_name ! i \<in> {''B'', ''KB'', ''MB'', ''GB''} \<and>
         2 * \<bar>100 * n - round2 n (1024 ^ i) * 1024 ^ i\<bar> \<le> 1024 ^ i \<and>
         format_size (Some n) =
           Inr (''('' @ float_str (round2 n (1024 ^ i)) @ '' '' @ size_name ! i @ '')'') \<and>
         (\<exists>s. format_size (Some n) = Inr s \<and> ends_with s (size_name ! i @ '')''))"
    using i f m r e by (intro exI [of _ i]) simp
qed

theorem format_size_result_witness:
  "0 < (1536::int) \<and> (1536::int) < 1024 ^ 4 \<and> magnitude_index 1536 = 1 \<and>
   format_size (Some 1536) = Inr ''(1.5 KB)''"
proof -
  obtain i where i: "i < 4" "1024 ^ i \<le> (1536::int)" "(1536::int) < 1024 ^ (i + 1)"
      "magnitude_index 1536 = int i"
    and f: "format_size (Some 1536) =
      Inr (''('' @ float_str (round2 1536 (1024 ^ i)) @ '' '' @ size_name ! i @ '')'')"
    using format_size_result [of 1536] by auto
  from i(1) have "i = 0 \<or> i = 1 \<or> i = 2 \<or> i = 3" by arith
  with i(2,3) have "i = 1" by auto
  with i(4) f show ?thesis
    by (simp add: size_name_def round2_def round_half_even_def float_str_def str_int_def
        str_nat.simps digit_char_def)
qed

text \<open>
  C4 as the spec states it fails at the first byte count with magnitude index 4: the
  lookup in the four-element table raises IndexError, and no string is returned.
\<close>

theorem format_size_terabyte_counterexample:
  "(0::int) < 1024 ^ 4 \<and> format_size (Some (1024 ^ 4)) = Inl IndexError"
  by (simp add: format_size_eval)

text \<open>
  C10: for \<open>1 \<le> n < 1024 ^ 4\<close> the index is within the unit table and \<open>format_size\<close>
  returns a string; for \<open>n \<ge> 1024 ^ 4\<close> the index is at least 4, which is the length of
  the table, the lookup raises IndexError and so does \<open>format_size\<close>.
\<close>

theorem format_size_domain:
  "(1 \<le> n \<and> n < 1024 ^ 4 \<longrightarrow>
      0 \<le> magnitude_index n \<and> magnitude_index n < int (length size_name) \<and>
      (\<exists>s. format_size (Some n) = Inr s)) \<and>
   (1024 ^ 4 \<le> n \<longrightarrow>
      4 \<le> magnitude_index n \<and> int (length size_name) \<le> magnitude_index n \<and>
      py_index size_name (magnitude_index n) = Inl IndexError \<and>
      format_size (Some n) = Inl IndexError)"
proof (intro conjI impI)
  assume a: "1 \<le> n \<and> n < 1024 ^ 4"
  show lo: "0 \<le> magnitude_index n"
    using magnitude_index_ge [of 0 n] a by simp
  show hi: "magnitude_index n < int (length size_name)"
    using magnitude_index_less [of n 4] a by (simp add: size_name_def)
  from lo hi obtain u where "py_index size_name (magnitude_index n) = Inr u"
    by (auto simp: py_index_def)
  with a show "\<exists>s. format_size (Some n) = Inr s"
    by (simp add: format_size_def Let_def)
next
  assume a: "1024 ^ 4 \<le> n"
  show ge: "4 \<le> magnitude_index n"
    using magnitude_index_ge [of 4 n] a by simp
  then show "int (length size_name) \<le> magnitude_index n"
    by (simp add: size_name_def)
  from ge show ie: "py_index size_name (magnitude_index n) = Inl IndexError"
    by (simp add: py_index_def size_name_def)
  from a have "0 < n" by simp
  with ie show "format_size (Some n) = Inl IndexError"
    by (simp add: format_size_def Let_def)
qed

theorem format_size_domain_witness:
  "(1 \<le> (1536::int) \<and> (1536::int) < 1024 ^ 4) \<and>
   (\<exists>s. format_size (Some 1536) = Inr s) \<and>
   (1024 ^ 4 \<le> (1099511627776::int)) \<and>
   magnitude_index 1099511627776 \<ge> 4 \<and>
   format_size (Some 1099511627776) = Inl IndexError"
  using format_size_domain [of 1536] format_size_domain [of 1099511627776] by simp

section \<open>Properties of the helpers and the handlers\<close>

lemma backslash_not_escaped: "backslash \<notin> set escape_chars"
  by (simp add: backslash_def escape_chars_def)

lemma escape_Nil: "escape_markdown_v2 [] = []"
  by (simp add: escape_markdown_v2_def)

lemma escape_Cons:
  "escape_markdown_v2 (c # t) =
     (if c \<in> set escape_chars then backslash # c # escape_markdown_v2 t
      else c # escape_markdown_v2 t)"
  by (simp add: escape_markdown_v2_def)

lemma escape_append:
  "escape_markdown_v2 (xs @ ys) = escape_markdown_v2 xs @ escape_markdown_v2 ys"
  by (simp add: escape_markdown_v2_def)

lemma escape_head_not_special:
  "escape_markdown_v2 t = d # rest \<Longrightarrow> d \<notin> set escape_chars"
  using backslash_not_escaped
  by (cases t) (auto simp: escape_Nil escape_Cons split: if_splits)

lemma unescape_escape: "unescape (escape_markdown_v2 t) = t"
proof (induction t)
  case Nil
  show ?case by (simp add: escape_Nil)
next
  case (Cons c t)
  show ?case
  proof (cases "c \<in> set escape_chars")
    case True
    then show ?thesis using Cons by (simp add: escape_Cons)
  next
    case False
    show ?thesis
    proof (cases "escape_markdown_v2 t")
      case Nil
      with Cons have "t = []" by simp
      with False show ?thesis by (simp add: escape_Cons escape_Nil)
    next
      case (Cons d rest)
      then have "d \<notin> set escape_chars" by (rule escape_head_not_special)
      with False Cons Cons.IH show ?thesis by (simp add: escape_Cons)
    qed
  qed
qed

lemma escape_length:
  "length (escape_markdown_v2 t) =
     length t + length (filter (\<lambda>c. c \<in> set escape_chars) t)"
  by (induction t) (simp_all add: escape_Nil escape_Cons)

text \<open>
  C7: the escaper works character by character and keeps the order: a character of the
  punctuation set becomes the escape marker followed by the character, any other
  character is passed through unchanged. So the output is longer than the input by
  exactly the number of occurrences of set characters, and reading the markers back
  (\<open>unescape\<close>) returns the input.
\<close>

theorem escape_markdown_v2_marks_each_once:
  "escape_markdown_v2 [] = [] \<and>
   escape_markdown_v2 (c # t) =
     (if c \<in> set escape_chars then backslash # c # escape_markdown_v2 t
      else c # escape_markdown_v2 t) \<and>
   escape_markdown_v2 (xs @ ys) = escape_markdown_v2 xs @ escape_markdown_v2 ys \<and>
   length (escape_markdown_v2 t) =
     length t + length (filter (\<lambda>c. c \<in> set escape_chars) t) \<and>
   unescape (escape_markdown_v2 t) = t"
  by (simp only: escape_Nil escape_Cons escape_append escape_length unescape_escape simp_thms)

theorem escape_markdown_v2_marks_each_once_witness:
  "escape_markdown_v2 ''a_b.c!'' = ''a'' @ [backslash] @ ''_b'' @ [backslash] @ ''.c'' @ [backslash] @ ''!'' \<and>
   CHR ''_'' \<in> set escape_chars \<and> CHR ''a'' \<notin> set escape_chars \<and>
   unescape (escape_markdown_v2 ''a_b.c!'') = ''a_b.c!''"
  using escape_markdown_v2_marks_each_once [of "CHR ''a''" "''_b.c!''" "[]" "[]"]
    escape_markdown_v2_marks_each_once [of "CHR ''_''" "''b.c!''" "[]" "[]"]
    escape_markdown_v2_marks_each_once [of "CHR ''b''" "''.c!''" "[]" "[]"]
    escape_markdown_v2_marks_each_once [of "CHR ''.''" "''c!''" "[]" "[]"]
    escape_markdown_v2_marks_each_once [of "CHR ''c''" "''!''" "[]" "[]"]
    escape_markdown_v2_marks_each_once [of "CHR ''!''" "[]" "[]" "[]"]
  by (simp add: escape_chars_def backslash_def)

lemma split_on_no_sep: "d \<notin> set s \<Longrightarrow> split_on d s = [s]"
  by (induction s) auto

lemma split_on_field: "d \<notin> set a \<Longrightarrow> split_on d (a @ d # s) = a # split_on d s"
  by (induction a) (auto split: list.splits)

lemma parse_token_fields:
  assumes "CHR '':'' \<notin> set k" "CHR '':'' \<notin> set v" "CHR '':'' \<notin> set q"
  shows "parse_token (k @ '':'' @ v @ '':'' @ q) = Inr (k, v, q)"
proof -
  have "split_on CHR '':'' (k @ CHR '':'' # (v @ CHR '':'' # q)) = [k, v, q]"
    using assms by (simp add: split_on_field split_on_no_sep)
  then show ?thesis by (simp add: parse_token_def)
qed

lemma digit_char_not_colon: "d < 10 \<Longrightarrow> digit_char d \<noteq> CHR '':''"
proof -
  assume "d < 10"
  then have "d = 0 \<or> d = 1 \<or> d = 2 \<or> d = 3 \<or> d = 4 \<or> d = 5 \<or> d = 6 \<or> d = 7 \<or> d = 8 \<or> d = 9"
    by arith
  then show ?thesis by (auto simp: digit_char_def)
qed

lemma str_nat_no_colon: "CHR '':'' \<notin> set (str_nat n)"
proof (induction n rule: str_nat.induct)
  case (1 n)
  show ?case
  proof (cases "n < 10")
    case True
    then show ?thesis
      using digit_char_not_colon [of n] by (subst str_nat.simps) auto
  next
    case False
    have "n mod 10 < 10" by simp
    then have "digit_char (n mod 10) \<noteq> CHR '':''" by (rule digit_char_not_colon)
    with False 1 show ?thesis by (subst str_nat.simps) auto
  qed
qed

lemma str_int_no_colon: "CHR '':'' \<notin> set (str_int n)"
  by (simp add: str_int_def str_nat_no_colon)

lemma parse_video_token:
  "CHR '':'' \<notin> set vid \<Longrightarrow> parse_token (video_token vid h) = Inr (''video'', vid, str_int h)"
  using parse_token_fields [of "''video''" vid "str_int h"] str_int_no_colon [of h]
  by (simp add: video_token_def)

lemma parse_audio_token:
  "CHR '':'' \<notin> set vid \<Longrightarrow> CHR '':'' \<notin> set fid \<Longrightarrow>
   parse_token (audio_token vid fid) = Inr (''audio'', vid, fid)"
  using parse_token_fields [of "''audio''" vid fid]
  by (simp add: audio_token_def)

lemma code_sel: "download_format_of ''video'' h = render_selector (code_selector h)"
  by (simp add: download_format_of_def render_selector_def code_selector_def render_stream_def)

lemma path_mp4: "download_type \<noteq> ''audio'' \<Longrightarrow> ends_with (file_path_of u v download_type) ''.mp4''"
  using ends_with_append [of "str_int u @ ''_'' @ v" "''.mp4''"]
  by (simp add: file_path_of_def)

lemma path_m4a: "ends_with (file_path_of u v ''audio'') ''.m4a''"
  using ends_with_append [of "str_int u @ ''_'' @ v" "''.m4a''"]
  by (simp add: file_path_of_def)

lemma distinct_msgs: "distinct [msg_unavailable, msg_invalid_url, msg_other_failure, msg_unexpected]"
  by (simp add: msg_unavailable_def msg_invalid_url_def msg_other_failure_def msg_unexpected_def cross_def)

text \<open>
  C6: when the extraction raises, the Link Handler sends nothing after the placeholder
  but one edit of it. A DownloadError is classified by the content of its lower-cased
  message into unavailable/private, malformed URL and everything else; any other
  exception gives the generic message. The four messages are pairwise distinct.
\<close>

theorem extraction_failure_edits_placeholder:
  "url_handler (Inl e) ud =
     (ud, [ReplyText msg_processing, EditText (extraction_error_message e)]) \<and>
   (\<forall>m. e = DownloadError m \<longrightarrow>
      extraction_error_message e =
        (if contains ''video unavailable'' (lower m) \<or> contains ''private video'' (lower m)
         then msg_unavailable
         else if contains ''is not a valid url'' (lower m) then msg_invalid_url
         else msg_other_failure)) \<and>
   ((\<forall>m. e \<noteq> DownloadError m) \<longrightarrow> extraction_error_message e = msg_unexpected) \<and>
   distinct [msg_unavailable, msg_invalid_url, msg_other_failure, msg_unexpected]"
proof (intro conjI allI impI)
  show "url_handler (Inl e) ud =
     (ud, [ReplyText msg_processing, EditText (extraction_error_message e)])"
    by (simp add: url_handler_def)
  show "extraction_error_message e =
        (if contains ''video unavailable'' (lower m) \<or> contains ''private video'' (lower m)
         then msg_unavailable
         else if contains ''is not a valid url'' (lower m) then msg_invalid_url
         else msg_other_failure)" if "e = DownloadError m" for m
    using that by (simp add: extraction_error_message_def Let_def)
  show "extraction_error_message e = msg_unexpected" if "\<forall>m. e \<noteq> DownloadError m"
    using that by (cases e) (simp_all add: extraction_error_message_def)
  show "distinct [msg_unavailable, msg_invalid_url, msg_other_failure, msg_unexpected]"
    by (rule distinct_msgs)
qed

theorem extraction_failure_edits_placeholder_witness:
  "url_handler (Inl (DownloadError ''ERROR: [youtube] x: Private video'')) Map.empty =
     (Map.empty, [ReplyText msg_processing, EditText msg_unavailable]) \<and>
   url_handler (Inl (DownloadError ''ERROR: foo is not a valid URL'')) Map.empty =
     (Map.empty, [ReplyText msg_processing, EditText msg_invalid_url]) \<and>
   url_handler (Inl (DownloadError ''ERROR: geo restricted'')) Map.empty =
     (Map.empty, [ReplyText msg_processing, EditText msg_other_failure]) \<and>
   url_handler (Inl (OtherError ''timeout'')) Map.empty =
     (Map.empty, [ReplyText msg_processing, EditText msg_unexpected])"
  using extraction_failure_edits_placeholder
      [of "DownloadError ''ERROR: [youtube] x: Private video''" Map.empty]
    extraction_failure_edits_placeholder
      [of "DownloadError ''ERROR: foo is not a valid URL''" Map.empty]
    extraction_failure_edits_placeholder
      [of "DownloadError ''ERROR: geo restricted''" Map.empty]
    extraction_failure_edits_placeholder [of "OtherError ''timeout''" Map.empty]
  by (simp add: lower_def lower_char_def)



lemma str42: "str_int 42 = ''42''"
  by (simp add: str_int_def str_nat.simps digit_char_def)

text \<open>
  C2, as the code has it. For a token \<open>video:<id>:<H>\<close> the selector has three
  alternatives: best video at height \<open>\<le> H\<close> in mp4 merged with best audio in m4a;
  then best single file at height \<open>\<le> H\<close>, still in mp4; then best. The path ends in
  \<open>.mp4\<close>. For a token \<open>audio:<id>:<fid>\<close> the format is \<open><fid>\<close> itself and the path
  ends in \<open>.m4a\<close>.
\<close>

theorem selection_request_of_token:
  "(CHR '':'' \<notin> set vid \<and> CHR '':'' \<notin> set h \<longrightarrow>
      selection_request \<lparr>query_data = ''video:'' @ vid @ '':'' @ h, from_user_id = uid\<rparr> =
        Inr (''video'', watch_url vid, file_path_of uid vid ''video'',
             make_ydl_opts (render_selector (code_selector h)) (file_path_of uid vid ''video'')) \<and>
      render_selector (code_selector h) =
        ''bestvideo[height<='' @ h @ ''][ext=mp4]+bestaudio[ext=m4a]/best[height<='' @ h @
        ''][ext=mp4]/best'' \<and>
      ends_with (file_path_of uid vid ''video'') ''.mp4'') \<and>
   (CHR '':'' \<notin> set vid \<and> CHR '':'' \<notin> set fid \<longrightarrow>
      selection_request \<lparr>query_data = ''audio:'' @ vid @ '':'' @ fid, from_user_id = uid\<rparr> =
        Inr (''audio'', watch_url vid, file_path_of uid vid ''audio'',
             make_ydl_opts fid (file_path_of uid vid ''audio'')) \<and>
      ends_with (file_path_of uid vid ''audio'') ''.m4a'')"
proof (intro conjI impI)
  assume a: "CHR '':'' \<notin> set vid \<and> CHR '':'' \<notin> set h"
  then have "parse_token (''video'' @ '':'' @ vid @ '':'' @ h) = Inr (''video'', vid, h)"
    by (intro parse_token_fields) simp_all
  then show "selection_request \<lparr>query_data = ''video:'' @ vid @ '':'' @ h, from_user_id = uid\<rparr> =
        Inr (''video'', watch_url vid, file_path_of uid vid ''video'',
             make_ydl_opts (render_selector (code_selector h)) (file_path_of uid vid ''video''))"
    by (simp add: selection_request_def Let_def code_sel)
  show "render_selector (code_selector h) =
        ''bestvideo[height<='' @ h @ ''][ext=mp4]+bestaudio[ext=m4a]/best[height<='' @ h @
        ''][ext=mp4]/best''"
    by (simp add: render_selector_def code_selector_def render_stream_def)
  show "ends_with (file_path_of uid vid ''video'') ''.mp4''"
    by (rule path_mp4) simp
next
  assume a: "CHR '':'' \<notin> set vid \<and> CHR '':'' \<notin> set fid"
  then have "parse_token (''audio'' @ '':'' @ vid @ '':'' @ fid) = Inr (''audio'', vid, fid)"
    by (intro parse_token_fields) simp_all
  then show "selection_request \<lparr>query_data = ''audio:'' @ vid @ '':'' @ fid, from_user_id = uid\<rparr> =
        Inr (''audio'', watch_url vid, file_path_of uid vid ''audio'',
             make_ydl_opts fid (file_path_of uid vid ''audio''))"
    by (simp add: selection_request_def Let_def download_format_of_def)
  show "ends_with (file_path_of uid vid ''audio'') ''.m4a''"
    by (rule path_m4a)
qed

theorem selection_request_of_token_witness:
  "selection_request \<lparr>query_data = ''video:abc123:720'', from_user_id = 42\<rparr> =
     Inr (''video'', ''https://www.youtube.com/watch?v=abc123'', ''42_abc123.mp4'',
          \<lparr>opt_format =
             ''bestvideo[height<=720][ext=mp4]+bestaudio[ext=m4a]/best[height<=720][ext=mp4]/best'',
           opt_outtmpl = ''42_abc123.mp4'', opt_quiet = True, opt_noplaylist = True,
           opt_merge_output_format = ''mp4''\<rparr>) \<and>
   selection_request \<lparr>query_data = ''audio:abc123:140'', from_user_id = 42\<rparr> =
     Inr (''audio'', ''https://www.youtube.com/watch?v=abc123'', ''42_abc123.m4a'',
          \<lparr>opt_format = ''140'', opt_outtmpl = ''42_abc123.m4a'', opt_quiet = True,
           opt_noplaylist = True, opt_merge_output_format = ''mp4''\<rparr>)"
  using selection_request_of_token [of "''abc123''" "''720''" 42 "''140''"]
  by (simp add: watch_url_def file_path_of_def str42 make_ydl_opts_def)

text \<open>
  C2 as the spec states it: the first fallback is best-at-height in any container. For
  the token \<open>video:abc123:720\<close> the selector the handler builds keeps \<open>[ext=mp4]\<close> in
  that alternative, so it is not the selector the spec describes.
\<close>

theorem fallback_tier_counterexample:
  "selection_request \<lparr>query_data = ''video:abc123:720'', from_user_id = 42\<rparr> =
     Inr (''video'', ''https://www.youtube.com/watch?v=abc123'', ''42_abc123.mp4'',
          \<lparr>opt_format =
             ''bestvideo[height<=720][ext=mp4]+bestaudio[ext=m4a]/best[height<=720][ext=mp4]/best'',
           opt_outtmpl = ''42_abc123.mp4'', opt_quiet = True, opt_noplaylist = True,
           opt_merge_output_format = ''mp4''\<rparr>) \<and>
   render_selector (spec_selector ''720'') =
     ''bestvideo[height<=720][ext=mp4]+bestaudio[ext=m4a]/best[height<=720]/best'' \<and>
   ''bestvideo[height<=720][ext=mp4]+bestaudio[ext=m4a]/best[height<=720][ext=mp4]/best'' \<noteq>
     render_selector (spec_selector ''720'')"
  by (simp add: selection_request_def parse_token_def watch_url_def file_path_of_def str42
      make_ydl_opts_def Let_def download_format_of_def render_selector_def spec_selector_def
      render_stream_def)

lemma find_append_eq:
  "find P (xs @ ys) = (case find P xs of None \<Rightarrow> find P ys | Some x \<Rightarrow> Some x)"
  by (induction xs) auto

lemma find_none: "(\<forall>x\<in>set xs. \<not> P x) \<Longrightarrow> find P xs = None"
  by (induction xs) auto

lemma best_audio_none: "(\<forall>f\<in>set fmts. \<not> audio_filter f) \<Longrightarrow> best_audio fmts = None"
  by (simp add: best_audio_def find_none)

lemma best_audio_last:
  assumes "audio_filter f" "\<forall>g\<in>set post. \<not> audio_filter g"
  shows "best_audio (pre @ f # post) = Some f"
proof -
  have "find audio_filter (rev post) = None"
    using assms(2) by (simp add: find_none)
  then show ?thesis
    using assms(1) by (simp add: best_audio_def find_append_eq)
qed

lemmas fmt_eval = audio_filter_def video_filter_def truthy_int_def file_size_def py_or_def
  height_key_def

section \<open>Properties of the keyboard\<close>

lemma video_formats_set: "set (video_formats fmts) = {f \<in> set fmts. video_filter f}"
  by (auto simp: video_formats_def)

lemma video_formats_sorted:
  "sorted_wrt (\<lambda>f g. height_key g \<le> height_key f) (video_formats fmts)"
proof -
  have "sorted (map (\<lambda>x. - height_key x) (video_formats fmts))"
    by (simp add: video_formats_def)
  then show ?thesis
    by (simp add: sorted_map)
qed

lemma video_filter_height: "video_filter f \<Longrightarrow> \<exists>h. height f = Some h \<and> h \<noteq> 0"
  by (auto simp: video_filter_def truthy_int_def split: option.splits)

lemma video_loop_rows:
  "video_loop vid xs added kb = Inr (added', kb') \<Longrightarrow>
   \<exists>rows. kb' = kb @ rows \<and>
     list_all2 (\<lambda>f row. \<exists>h b. height f = Some h \<and> video_button vid f h = Inr b \<and> row = [b])
       (selected_formats xs added) rows"
proof (induction xs arbitrary: added kb)
  case Nil
  then show ?case by simp
next
  case (Cons f fs)
  show ?case
  proof (cases "height f")
    case None
    with Cons show ?thesis by simp
  next
    case (Some h)
    show ?thesis
    proof (cases "h \<noteq> 0 \<and> h \<notin> added")
      case False
      with Some Cons show ?thesis by auto
    next
      case True
      with Some Cons.prems obtain b where
        b: "video_button vid f h = Inr b" and
        l: "video_loop vid fs (insert h added) (kb @ [[b]]) = Inr (added', kb')"
        by (auto split: sum.splits)
      from Cons.IH [OF l] obtain rows where
        r: "kb' = (kb @ [[b]]) @ rows" and
        a: "list_all2 (\<lambda>f row. \<exists>h b. height f = Some h \<and> video_button vid f h = Inr b \<and> row = [b])
              (selected_formats fs (insert h added)) rows"
        by blast
      have "kb' = kb @ ([b] # rows)" using r by simp
      moreover have "list_all2 (\<lambda>f row. \<exists>h b. height f = Some h \<and> video_button vid f h = Inr b \<and> row = [b])
              (selected_formats (f # fs) added) ([b] # rows)"
        using True Some b a by simp
      ultimately show ?thesis by blast
    qed
  qed
qed

lemma selected_formats_member:
  "f \<in> set (selected_formats xs added) \<Longrightarrow>
   f \<in> set xs \<and> (\<exists>h. height f = Some h \<and> h \<noteq> 0 \<and> h \<notin> added)"
proof (induction xs arbitrary: added)
  case Nil
  then show ?case by simp
next
  case (Cons x xs)
  then show ?case
    by (cases "height x") (auto split: if_splits)
qed

lemma selected_formats_descending:
  assumes "sorted_wrt (\<lambda>f g. height_key g \<le> height_key f) xs"
  shows "sorted_wrt (\<lambda>f g. height_key g < height_key f) (selected_formats xs added)"
  using assms
proof (induction xs arbitrary: added)
  case Nil
  then show ?case by simp
next
  case (Cons x xs)
  then have tl: "sorted_wrt (\<lambda>f g. height_key g \<le> height_key f) xs"
    and hd: "\<forall>g\<in>set xs. height_key g \<le> height_key x"
    by simp_all
  show ?case
  proof (cases "height x")
    case None
    with Cons.IH [OF tl] show ?thesis by simp
  next
    case (Some h)
    show ?thesis
    proof (cases "h \<noteq> 0 \<and> h \<notin> added")
      case False
      with Some Cons.IH [OF tl] show ?thesis by auto
    next
      case True
      have "height_key g < height_key x" if "g \<in> set (selected_formats xs (insert h added))" for g
      proof -
        from selected_formats_member [OF that] obtain h' where
          g: "g \<in> set xs" "height g = Some h'" "h' \<noteq> h"
          by auto
        with hd have "height_key g \<le> height_key x" by simp
        with g Some show ?thesis by (simp add: height_key_def)
      qed
      with True Some Cons.IH [OF tl, of "insert h added"] show ?thesis by simp
    qed
  qed
qed

lemma selected_formats_first:
  "f \<in> set (selected_formats xs added) \<Longrightarrow> find (\<lambda>g. height g = height f) xs = Some f"
proof (induction xs arbitrary: added)
  case Nil
  then show ?case by simp
next
  case (Cons x xs)
  show ?case
  proof (cases "height x")
    case None
    with Cons.prems have m: "f \<in> set (selected_formats xs added)" by simp
    from selected_formats_member [OF m] None have "height x \<noteq> height f" by auto
    with Cons.IH [OF m] show ?thesis by simp
  next
    case (Some h)
    show ?thesis
    proof (cases "h \<noteq> 0 \<and> h \<notin> added")
      case False
      with Some Cons.prems have m: "f \<in> set (selected_formats xs added)" by auto
      from selected_formats_member [OF m] False Some have "height x \<noteq> height f" by auto
      with Cons.IH [OF m] show ?thesis by simp
    next
      case True
      with Some Cons.prems have "f = x \<or> f \<in> set (selected_formats xs (insert h added))"
        by auto
      then show ?thesis
      proof
        assume "f = x"
        then show ?thesis by simp
      next
        assume m: "f \<in> set (selected_formats xs (insert h added))"
        from selected_formats_member [OF m] Some have "height x \<noteq> height f" by auto
        with Cons.IH [OF m] show ?thesis by simp
      qed
    qed
  qed
qed

lemma selected_formats_heights:
  "height ` set (selected_formats xs added) =
     {Some h | h. h \<noteq> 0 \<and> h \<notin> added \<and> Some h \<in> height ` set xs}"
proof (induction xs arbitrary: added)
  case Nil
  then show ?case by simp
next
  case (Cons x xs)
  show ?case
  proof (cases "height x")
    case None
    with Cons.IH [of added] show ?thesis by auto
  next
    case (Some h)
    show ?thesis
    proof (cases "h \<noteq> 0 \<and> h \<notin> added")
      case False
      with Some Cons.IH [of added] show ?thesis by auto
    next
      case True
      with Some Cons.IH [of "insert h added"] show ?thesis by auto
    qed
  qed
qed

lemma video_formats_heights:
  "height ` set (selected_formats (video_formats fmts) {}) = height ` set (video_formats fmts)"
proof -
  have "\<forall>f\<in>set (video_formats fmts). \<exists>h. height f = Some h \<and> h \<noteq> 0"
    by (simp add: video_formats_set video_filter_height)
  then show ?thesis
    unfolding selected_formats_heights by force
qed

lemma find_filter_hd:
  "find P xs = (case filter P xs of [] \<Rightarrow> None | x # _ \<Rightarrow> Some x)"
  by (induction xs) auto

lemma video_formats_stable:
  "find (\<lambda>g. height g = Some h) (video_formats fmts) =
   find (\<lambda>g. height g = Some h) (filter video_filter fmts)"
proof -
  have eq: "(\<lambda>g. height g = Some h \<and> video_filter g) = (\<lambda>g. (- height_key g = - h) \<and> video_filter g)"
    by (auto simp: fun_eq_iff height_key_def dest: video_filter_height)
  have v: "filter video_filter (video_formats fmts) = video_formats fmts"
    by (rule filter_True) (simp add: video_formats_set)
  have "filter (\<lambda>g. height g = Some h) (video_formats fmts) =
        filter (\<lambda>g. height g = Some h \<and> video_filter g) (video_formats fmts)"
    by (rule filter_cong) (auto simp: video_formats_set)
  also have "\<dots> = filter (\<lambda>g. - height_key g = - h \<and> video_filter g) (video_formats fmts)"
    by (simp only: eq)
  also have "\<dots> = filter (\<lambda>g. - height_key g = - h) (video_formats fmts)"
    by (rule filter_cong) (auto simp: video_formats_set)
  also have "\<dots> = filter (\<lambda>g. - height_key g = - h) (filter video_filter fmts)"
    unfolding video_formats_def by (rule sort_key_stable)
  also have "\<dots> = filter (\<lambda>g. - height_key g = - h \<and> video_filter g) (filter video_filter fmts)"
    by (rule filter_cong) auto
  also have "\<dots> = filter (\<lambda>g. height g = Some h \<and> video_filter g) (filter video_filter fmts)"
    by (simp only: eq)
  also have "\<dots> = filter (\<lambda>g. height g = Some h) (filter video_filter fmts)"
    by (rule filter_cong) auto
  finally show ?thesis
    by (simp only: find_filter_hd)
qed

lemma video_button_token:
  "video_button vid f h = Inr b \<Longrightarrow> callback_data b = video_token vid h"
  by (auto simp: video_button_def split: sum.splits)

lemma descending_distinct:
  "sorted_wrt (\<lambda>f g. height_key g < height_key f) xs \<Longrightarrow> distinct (map height_key xs)"
  by (induction xs) auto

lemma video_buttons_rows:
  assumes "video_buttons vid fmts = Inr kb"
  shows "list_all2 (\<lambda>f row. \<exists>h b. height f = Some h \<and> video_button vid f h = Inr b \<and> row = [b])
           (selected_formats (video_formats fmts) {}) kb"
proof -
  from assms obtain added' where
    "video_loop vid (video_formats fmts) {} [] = Inr (added', kb)"
    by (auto simp: video_buttons_def split: sum.splits)
  from video_loop_rows [OF this] show ?thesis by simp
qed

text \<open>
  C3: \<open>video_formats\<close> holds exactly the formats with a video codec, container mp4 and an
  explicit height, in descending order of height. When the video buttons are produced,
  they are one row of one button for each format of a list \<open>sel\<close> whose heights are
  strictly descending (so no height occurs twice), every height of \<open>video_formats\<close> has
  its button, and the format behind a button is the first one with that height in
  \<open>video_formats\<close>, which is also the first one with that height among the filtered
  formats in declared order.
\<close>

theorem video_buttons_one_per_height:
  assumes "video_buttons vid fmts = Inr kb"
  shows "set (video_formats fmts) = {f \<in> set fmts. video_filter f} \<and>
         sorted_wrt (\<lambda>f g. height_key g \<le> height_key f) (video_formats fmts) \<and>
         (\<exists>sel.
            list_all2 (\<lambda>f row. \<exists>h b. height f = Some h \<and> video_button vid f h = Inr b \<and>
                                  callback_data b = video_token vid h \<and> row = [b]) sel kb \<and>
            sorted_wrt (\<lambda>f g. height_key g < height_key f) sel \<and>
            distinct (map height_key sel) \<and>
            (\<forall>f\<in>set sel.
               find (\<lambda>g. height g = height f) (video_formats fmts) = Some f \<and>
               find (\<lambda>g. height g = height f) (filter video_filter fmts) = Some f) \<and>
            height ` set sel = height ` set (video_formats fmts))"
proof (intro conjI)
  show "set (video_formats fmts) = {f \<in> set fmts. video_filter f}"
    by (rule video_formats_set)
  show s: "sorted_wrt (\<lambda>f g. height_key g \<le> height_key f) (video_formats fmts)"
    by (rule video_formats_sorted)
  let ?sel = "selected_formats (video_formats fmts) {}"
  have rows: "list_all2 (\<lambda>f row. \<exists>h b. height f = Some h \<and> video_button vid f h = Inr b \<and>
                                  callback_data b = video_token vid h \<and> row = [b]) ?sel kb"
    using video_buttons_rows [OF assms]
    by (rule list_all2_mono) (auto dest: video_button_token)
  have desc: "sorted_wrt (\<lambda>f g. height_key g < height_key f) ?sel"
    using s by (rule selected_formats_descending)
  have first: "find (\<lambda>g. height g = height f) (video_formats fmts) = Some f \<and>
               find (\<lambda>g. height g = height f) (filter video_filter fmts) = Some f"
    if "f \<in> set ?sel" for f
  proof -
    from selected_formats_member [OF that] obtain h where h: "height f = Some h" by blast
    from selected_formats_first [OF that]
    have "find (\<lambda>g. height g = height f) (video_formats fmts) = Some f" .
    with h video_formats_stable [of h fmts] show ?thesis by simp
  qed
  show "\<exists>sel.
            list_all2 (\<lambda>f row. \<exists>h b. height f = Some h \<and> video_button vid f h = Inr b \<and>
                                  callback_data b = video_token vid h \<and> row = [b]) sel kb \<and>
            sorted_wrt (\<lambda>f g. height_key g < height_key f) sel \<and>
            distinct (map height_key sel) \<and>
            (\<forall>f\<in>set sel.
               find (\<lambda>g. height g = height f) (video_formats fmts) = Some f \<and>
               find (\<lambda>g. height g = height f) (filter video_filter fmts) = Some f) \<and>
            height ` set sel = height ` set (video_formats fmts)"
    using rows desc descending_distinct [OF desc] first video_formats_heights [of fmts]
    by (intro exI [of _ ?sel]) blast
qed

lemma example_video_buttons:
  "video_buttons ''abc123'' example_formats =
   Inr [[\<lparr>label = clapper @ '' 1080p (4.77 MB)'', callback_data = ''video:abc123:1080''\<rparr>],
        [\<lparr>label = clapper @ '' 720p (1.0 MB)'', callback_data = ''video:abc123:720''\<rparr>]]"
  by (simp add: example_formats_def fmt_eval format_size_eval video_buttons_def
      video_formats_def video_button_def video_token_def)

lemma example_audio_buttons:
  "audio_buttons ''abc123'' example_formats =
   Inr [[\<lparr>label = music_note @ '' Audio (1.5 KB)'', callback_data = ''audio:abc123:140''\<rparr>]]"
  by (simp add: example_formats_def fmt_eval format_size_eval audio_buttons_def
      best_audio_def audio_token_def)

theorem video_buttons_one_per_height_witness:
  "video_buttons ''abc123'' example_formats =
     Inr [[\<lparr>label = clapper @ '' 1080p (4.77 MB)'', callback_data = ''video:abc123:1080''\<rparr>],
          [\<lparr>label = clapper @ '' 720p (1.0 MB)'', callback_data = ''video:abc123:720''\<rparr>]] \<and>
   (\<exists>sel.
      list_all2 (\<lambda>f row. \<exists>h b. height f = Some h \<and> video_button ''abc123'' f h = Inr b \<and>
                            callback_data b = video_token ''abc123'' h \<and> row = [b]) sel
        [[\<lparr>label = clapper @ '' 1080p (4.77 MB)'', callback_data = ''video:abc123:1080''\<rparr>],
         [\<lparr>label = clapper @ '' 720p (1.0 MB)'', callback_data = ''video:abc123:720''\<rparr>]] \<and>
      sorted_wrt (\<lambda>f g. height_key g < height_key f) sel \<and>
      (\<forall>f\<in>set sel. find (\<lambda>g. height g = height f) (video_formats example_formats) = Some f))"
  using video_buttons_one_per_height [OF example_video_buttons] example_video_buttons
  by blast

lemma list_all2_rowD:
  "list_all2 P xs ys \<Longrightarrow> y \<in> set ys \<Longrightarrow> \<exists>x\<in>set xs. P x y"
  by (induction rule: list_all2_induct) auto

lemma find_SomeD: "find P xs = Some x \<Longrightarrow> x \<in> set xs \<and> P x"
  by (induction xs) (auto split: if_splits)

lemma video_buttons_tokens:
  assumes "video_buttons vid fmts = Inr kb" "row \<in> set kb" "b \<in> set row"
  shows "\<exists>h. callback_data b = video_token vid h"
proof -
  from list_all2_rowD [OF video_buttons_rows [OF assms(1)] assms(2)]
  obtain f h b' where "video_button vid f h = Inr b'" "row = [b']"
    by blast
  with assms(3) show ?thesis
    by (auto dest: video_button_token)
qed

lemma audio_buttons_tokens:
  assumes "audio_buttons vid fmts = Inr kb" "row \<in> set kb" "b \<in> set row"
  shows "\<exists>f\<in>set fmts. callback_data b = audio_token vid (format_id f)"
proof -
  from assms obtain f where f: "best_audio fmts = Some f"
    and b: "callback_data b = audio_token vid (format_id f)"
    by (auto simp: audio_buttons_def split: option.splits sum.splits)
  from f have "f \<in> set fmts"
    using find_SomeD [of audio_filter "rev fmts" f] by (simp add: best_audio_def)
  with b show ?thesis by blast
qed

text \<open>
  C9: every button the Link Handler puts on the keyboard carries a token
  \<open>video:<id>:<height>\<close> or \<open>audio:<id>:<format-id>\<close>; when neither the video id nor
  any format id contains a colon, the Selection Handler's split gives exactly the three
  fields kind, video id and height or format id, and its parse returns them.
\<close>

theorem callback_token_round_trip:
  assumes "build_keyboard vid fmts = Inr kb" and "row \<in> set kb" and "b \<in> set row"
    and "CHR '':'' \<notin> set vid" and "\<forall>f\<in>set fmts. CHR '':'' \<notin> set (format_id f)"
  shows "(\<exists>h. callback_data b = video_token vid h \<and>
              split_on CHR '':'' (callback_data b) = [''video'', vid, str_int h] \<and>
              parse_token (callback_data b) = Inr (''video'', vid, str_int h)) \<or>
         (\<exists>f\<in>set fmts. callback_data b = audio_token vid (format_id f) \<and>
              split_on CHR '':'' (callback_data b) = [''audio'', vid, format_id f] \<and>
              parse_token (callback_data b) = Inr (''audio'', vid, format_id f))"
proof -
  from assms(1) obtain kv ka where
    kv: "video_buttons vid fmts = Inr kv" and ka: "audio_buttons vid fmts = Inr ka"
    and kb: "kb = kv @ ka"
    by (auto simp: build_keyboard_def split: sum.splits)
  from assms(2) kb have "row \<in> set kv \<or> row \<in> set ka" by auto
  then show ?thesis
  proof
    assume "row \<in> set kv"
    from video_buttons_tokens [OF kv this assms(3)] obtain h where
      h: "callback_data b = video_token vid h" ..
    have "split_on CHR '':'' (video_token vid h) = [''video'', vid, str_int h]"
      using assms(4) str_int_no_colon [of h]
        split_on_field [of "CHR '':''" "''video''" "vid @ CHR '':'' # str_int h"]
      by (simp add: video_token_def split_on_field split_on_no_sep)
    with h parse_video_token [OF assms(4), of h] show ?thesis by auto
  next
    assume "row \<in> set ka"
    from audio_buttons_tokens [OF ka this assms(3)] obtain f where
      f: "f \<in> set fmts" "callback_data b = audio_token vid (format_id f)" by blast
    with assms(5) have c: "CHR '':'' \<notin> set (format_id f)" by blast
    have "split_on CHR '':'' (audio_token vid (format_id f)) = [''audio'', vid, format_id f]"
      using assms(4) c
        split_on_field [of "CHR '':''" "''audio''" "vid @ CHR '':'' # format_id f"]
      by (simp add: audio_token_def split_on_field split_on_no_sep)
    with f parse_audio_token [OF assms(4) c] show ?thesis by auto
  qed
qed

lemma example_keyboard:
  "build_keyboard ''abc123'' example_formats =
   Inr [[\<lparr>label = clapper @ '' 1080p (4.77 MB)'', callback_data = ''video:abc123:1080''\<rparr>],
        [\<lparr>label = clapper @ '' 720p (1.0 MB)'', callback_data = ''video:abc123:720''\<rparr>],
        [\<lparr>label = music_note @ '' Audio (1.5 KB)'', callback_data = ''audio:abc123:140''\<rparr>]]"
  by (simp add: build_keyboard_def example_video_buttons example_audio_buttons)

lemma example_ids_no_colon:
  "CHR '':'' \<notin> set ''abc123'' \<and> (\<forall>f\<in>set example_formats. CHR '':'' \<notin> set (format_id f))"
  by (simp add: example_formats_def)

theorem callback_token_round_trip_witness:
  "build_keyboard ''abc123'' example_formats =
     Inr [[\<lparr>label = clapper @ '' 1080p (4.77 MB)'', callback_data = ''video:abc123:1080''\<rparr>],
          [\<lparr>label = clapper @ '' 720p (1.0 MB)'', callback_data = ''video:abc123:720''\<rparr>],
          [\<lparr>label = music_note @ '' Audio (1.5 KB)'', callback_data = ''audio:abc123:140''\<rparr>]] \<and>
   CHR '':'' \<notin> set ''abc123'' \<and>
   CHR '':'' \<notin> set (concat (map format_id example_formats)) \<and>
   (\<exists>k q. split_on CHR '':'' ''video:abc123:720'' = [k, ''abc123'', q] \<and>
          parse_token ''video:abc123:720'' = Inr (k, ''abc123'', q)) \<and>
   (\<exists>k q. split_on CHR '':'' ''audio:abc123:140'' = [k, ''abc123'', q] \<and>
          parse_token ''audio:abc123:140'' = Inr (k, ''abc123'', q)) \<and>
   parse_token ''video:abc123:720'' = Inr (''video'', ''abc123'', ''720'') \<and>
   parse_token ''audio:abc123:140'' = Inr (''audio'', ''abc123'', ''140'')"
proof -
  have ids: "CHR '':'' \<notin> set ''abc123''" "\<forall>f\<in>set example_formats. CHR '':'' \<notin> set (format_id f)"
    using example_ids_no_colon by blast+
  have v: "\<exists>k q. split_on CHR '':'' ''video:abc123:720'' = [k, ''abc123'', q] \<and>
          parse_token ''video:abc123:720'' = Inr (k, ''abc123'', q)"
    using callback_token_round_trip [OF example_keyboard _ _ ids,
        of "[\<lparr>label = clapper @ '' 720p (1.0 MB)'', callback_data = ''video:abc123:720''\<rparr>]"
           "\<lparr>label = clapper @ '' 720p (1.0 MB)'', callback_data = ''video:abc123:720''\<rparr>"]
    by auto
  have a: "\<exists>k q. split_on CHR '':'' ''audio:abc123:140'' = [k, ''abc123'', q] \<and>
          parse_token ''audio:abc123:140'' = Inr (k, ''abc123'', q)"
    using callback_token_round_trip [OF example_keyboard _ _ ids,
        of "[\<lparr>label = music_note @ '' Audio (1.5 KB)'', callback_data = ''audio:abc123:140''\<rparr>]"
           "\<lparr>label = music_note @ '' Audio (1.5 KB)'', callback_data = ''audio:abc123:140''\<rparr>"]
    by auto
  have p: "parse_token ''video:abc123:720'' = Inr (''video'', ''abc123'', ''720'')"
    "parse_token ''audio:abc123:140'' = Inr (''audio'', ''abc123'', ''140'')"
    by (simp_all add: parse_token_def)
  have c: "CHR '':'' \<notin> set (concat (map format_id example_formats))"
    using ids(2) by simp
  from example_keyboard ids(1) c v a p show ?thesis by blast
qed

section \<open>Properties of the cleanup, the session title and the audio button\<close>

lemma try_body_fs:
  "snd (snd (try_body w download_type url opts file_path t fs)) = snd (download w opts url fs)"
  by (simp add: try_body_def Let_def split: prod.splits option.splits)

lemma callback_cleanup:
  assumes "answer_ok w" "selection_request q = Inr (download_type, url, file_path, opts)"
    and "cleanup w file_path (snd (download w opts url fs)) = (r, fs2)"
  shows "snd (snd (download_button_callback w q ud fs)) = fs2 \<and>
         (\<forall>e. r = Some e \<longrightarrow> fst (download_button_callback w q ud fs) = Some e)"
proof -
  obtain raised acts1 fs1 where
    tb: "try_body w download_type url opts file_path
           (case ud ''video_title'' of None \<Rightarrow> PyStr ''video'' | Some v \<Rightarrow> v) fs
         = (raised, acts1, fs1)"
    using prod_cases3 by blast
  then have fs1: "fs1 = snd (download w opts url fs)"
    using try_body_fs [of w download_type url opts file_path
        "case ud ''video_title'' of None \<Rightarrow> PyStr ''video'' | Some v \<Rightarrow> v" fs]
    by simp
  obtain esc acts2 where
    ex: "(case raised of None \<Rightarrow> (None, []) | Some e \<Rightarrow> except_clauses w e) = (esc, acts2)"
    by (cases "case raised of None \<Rightarrow> (None, []) | Some e \<Rightarrow> except_clauses w e") blast
  from assms tb fs1 ex show ?thesis
    by (cases r) (simp_all add: download_button_callback_def Let_def)
qed

text \<open>
  C1, as the code has it. Once the button press is acknowledged and the token parsed, the
  cleanup step runs on every exit path, whatever the download service and the chat
  transport do. If the computed path is then absent, or is a regular file that the
  operating system lets the process remove, the handler ends with nothing at that path
  and every other path as the download left it. If the path is a directory, or a regular
  file that cannot be removed, \<open>os.remove\<close> raises, the path stays as it is, and that
  exception leaves the handler.
\<close>

theorem cleanup_runs_on_every_path:
  assumes "answer_ok w"
    and "parse_token (query_data q) = Inr (download_type, vid, quality_or_id)"
    and "file_path = file_path_of (from_user_id q) vid download_type"
    and "fs1 = snd (download w
                  (make_ydl_opts (download_format_of download_type quality_or_id) file_path)
                  (watch_url vid) fs)"
  shows "(fs1 file_path = None \<or> (fs1 file_path = Some RegularFile \<and> remove_ok w) \<longrightarrow>
            snd (snd (download_button_callback w q ud fs)) = fs1(file_path := None) \<and>
            snd (snd (download_button_callback w q ud fs)) file_path = None) \<and>
         (fs1 file_path = Some Directory \<longrightarrow>
            snd (snd (download_button_callback w q ud fs)) = fs1 \<and>
            fst (download_button_callback w q ud fs) = Some IsADirectoryError) \<and>
         (fs1 file_path = Some RegularFile \<and> \<not> remove_ok w \<longrightarrow>
            snd (snd (download_button_callback w q ud fs)) = fs1 \<and>
            fst (download_button_callback w q ud fs) = Some PermissionError)"
proof -
  have sr: "selection_request q =
      Inr (download_type, watch_url vid, file_path,
           make_ydl_opts (download_format_of download_type quality_or_id) file_path)"
    using assms(2,3) by (simp add: selection_request_def Let_def)
  have cc: "snd (snd (download_button_callback w q ud fs)) = fs2 \<and>
         (\<forall>e. r = Some e \<longrightarrow> fst (download_button_callback w q ud fs) = Some e)"
    if "cleanup w file_path fs1 = (r, fs2)" for r fs2
    using that assms(4) callback_cleanup [OF assms(1) sr, where fs = fs and ud = ud and r = r
        and ?fs2.0 = fs2]
    by simp
  show ?thesis
  proof (intro conjI impI)
    assume a: "fs1 file_path = None \<or> (fs1 file_path = Some RegularFile \<and> remove_ok w)"
    then have "cleanup w file_path fs1 = (None, fs1(file_path := None))"
    proof
      assume n: "fs1 file_path = None"
      then have "fs1(file_path := None) = fs1" by (simp add: fun_upd_idem)
      with n show ?thesis by (simp add: cleanup_def)
    next
      assume "fs1 file_path = Some RegularFile \<and> remove_ok w"
      then show ?thesis by (simp add: cleanup_def)
    qed
    from cc [OF this]
    show "snd (snd (download_button_callback w q ud fs)) = fs1(file_path := None)"
      by simp
    then show "snd (snd (download_button_callback w q ud fs)) file_path = None"
      by simp
  next
    assume "fs1 file_path = Some Directory"
    then have "cleanup w file_path fs1 = (Some IsADirectoryError, fs1)"
      by (simp add: cleanup_def)
    from cc [OF this]
    show "snd (snd (download_button_callback w q ud fs)) = fs1"
      and "fst (download_button_callback w q ud fs) = Some IsADirectoryError"
      by simp_all
  next
    assume "fs1 file_path = Some RegularFile \<and> \<not> remove_ok w"
    then have "cleanup w file_path fs1 = (Some PermissionError, fs1)"
      by (simp add: cleanup_def)
    from cc [OF this]
    show "snd (snd (download_button_callback w q ud fs)) = fs1"
      and "fst (download_button_callback w q ud fs) = Some PermissionError"
      by simp_all
  qed
qed

lemma example_path: "file_path_of 42 ''abc123'' ''video'' = ''42_abc123.mp4''"
  by (simp add: file_path_of_def str42)

lemma example_parse:
  "parse_token (query_data example_query) = Inr (''video'', ''abc123'', ''720'')"
  by (simp add: example_query_def parse_token_def)

theorem cleanup_runs_on_every_path_witness:
  "snd (snd (download_button_callback (example_world None (Some RegularFile) True)
               example_query Map.empty Map.empty)) ''42_abc123.mp4'' = None \<and>
   snd (snd (download_button_callback
               (example_world (Some (DownloadError ''HTTP Error 403'')) None True)
               example_query Map.empty Map.empty)) ''42_abc123.mp4'' = None \<and>
   download_button_callback
     (example_world (Some (DownloadError ''unable to open for writing'')) (Some Directory) True)
     example_query Map.empty [''42_abc123.mp4'' \<mapsto> Directory] =
     (Some IsADirectoryError, [EditCaption msg_preparing, EditCaption msg_download_failed],
      [''42_abc123.mp4'' \<mapsto> Directory]) \<and>
   fst (download_button_callback (example_world None (Some RegularFile) False)
          example_query Map.empty Map.empty) = Some PermissionError \<and>
   snd (snd (download_button_callback (example_world None (Some RegularFile) False)
          example_query Map.empty Map.empty)) ''42_abc123.mp4'' = Some RegularFile"
proof -
  have a: "answer_ok (example_world r l b)" for r l b
    by (simp add: example_world_def)
  note t = cleanup_runs_on_every_path [OF a example_parse refl refl]
  have f1: "snd (snd (download_button_callback (example_world None (Some RegularFile) True)
               example_query Map.empty Map.empty)) ''42_abc123.mp4'' = None"
    using t [of None "Some RegularFile" True Map.empty Map.empty]
    by (simp add: example_world_def example_query_def example_path make_ydl_opts_def)
  have f2: "snd (snd (download_button_callback
               (example_world (Some (DownloadError ''HTTP Error 403'')) None True)
               example_query Map.empty Map.empty)) ''42_abc123.mp4'' = None"
    using t [of "Some (DownloadError ''HTTP Error 403'')" None True Map.empty Map.empty]
    by (simp add: example_world_def example_query_def example_path make_ydl_opts_def)
  have f3: "snd (snd (download_button_callback
     (example_world (Some (DownloadError ''unable to open for writing'')) (Some Directory) True)
     example_query Map.empty [''42_abc123.mp4'' \<mapsto> Directory])) = [''42_abc123.mp4'' \<mapsto> Directory] \<and>
     fst (download_button_callback
     (example_world (Some (DownloadError ''unable to open for writing'')) (Some Directory) True)
     example_query Map.empty [''42_abc123.mp4'' \<mapsto> Directory]) = Some IsADirectoryError"
    using t [of "Some (DownloadError ''unable to open for writing'')" "Some Directory" True
        "[''42_abc123.mp4'' \<mapsto> Directory]" Map.empty]
    by (simp add: example_world_def example_query_def example_path make_ydl_opts_def)
  have f3a: "fst (snd (download_button_callback
     (example_world (Some (DownloadError ''unable to open for writing'')) (Some Directory) True)
     example_query Map.empty [''42_abc123.mp4'' \<mapsto> Directory])) =
     [EditCaption msg_preparing, EditCaption msg_download_failed]"
    by (simp add: download_button_callback_def selection_request_def parse_token_def
        example_world_def try_body_def except_clauses_def cleanup_def example_query_def
        example_path make_ydl_opts_def Let_def)
  have f4: "fst (download_button_callback (example_world None (Some RegularFile) False)
          example_query Map.empty Map.empty) = Some PermissionError \<and>
   snd (snd (download_button_callback (example_world None (Some RegularFile) False)
          example_query Map.empty Map.empty)) ''42_abc123.mp4'' = Some RegularFile"
    using t [of None "Some RegularFile" False Map.empty Map.empty]
    by (simp add: example_world_def example_query_def example_path make_ydl_opts_def)
  from f1 f2 f3 f3a f4 show ?thesis
    by (simp add: prod_eq_iff)
qed

text \<open>
  C1 as the spec states it fails when a directory stands at the computed path: the
  download cannot write and raises, the caption is edited to the download failure, the
  existence check of the cleanup is true of the directory, \<open>os.remove\<close> raises
  IsADirectoryError, and the path still exists when the handler ends.
\<close>

theorem cleanup_directory_counterexample:
  "answer_ok (example_world (Some (DownloadError ''unable to open for writing''))
                (Some Directory) True) \<and>
   parse_token (query_data example_query) = Inr (''video'', ''abc123'', ''720'') \<and>
   file_path_of (from_user_id example_query) ''abc123'' ''video'' = ''42_abc123.mp4'' \<and>
   download_button_callback
     (example_world (Some (DownloadError ''unable to open for writing'')) (Some Directory) True)
     example_query Map.empty [''42_abc123.mp4'' \<mapsto> Directory] =
     (Some IsADirectoryError, [EditCaption msg_preparing, EditCaption msg_download_failed],
      [''42_abc123.mp4'' \<mapsto> Directory]) \<and>
   [''42_abc123.mp4'' \<mapsto> Directory] ''42_abc123.mp4'' \<noteq> None"
  by (simp add: download_button_callback_def selection_request_def parse_token_def
      example_world_def try_body_def except_clauses_def cleanup_def example_query_def
      example_path make_ydl_opts_def Let_def)


lemma audio_buttons_empty_iff:
  "audio_buttons vid fmts = Inr [] \<longleftrightarrow> (\<forall>f\<in>set fmts. \<not> audio_filter f)"
proof
  assume "audio_buttons vid fmts = Inr []"
  then have "best_audio fmts = None"
    by (auto simp: audio_buttons_def split: option.splits sum.splits)
  then show "\<forall>f\<in>set fmts. \<not> audio_filter f"
    by (auto simp: best_audio_def find_None_iff)
next
  assume "\<forall>f\<in>set fmts. \<not> audio_filter f"
  then show "audio_buttons vid fmts = Inr []"
    by (simp add: audio_buttons_def best_audio_none)
qed





lemma audio_buttons_last:
  assumes "audio_filter f" "\<forall>g\<in>set post. \<not> audio_filter g"
    and "format_size (file_size f) = Inr sz"
  shows "audio_buttons vid (pre @ f # post) =
           Inr [[\<lparr>label = music_note @ '' Audio '' @ sz,
                  callback_data = audio_token vid (format_id f)\<rparr>]]"
  using best_audio_last [OF assms(1,2), of pre] assms(3)
  by (simp add: audio_buttons_def)

text \<open>
  C8, as the code has it. The audio button is built after the video buttons, so only
  when these were built without a fault. Then: with no matching format the keyboard is
  the video buttons alone; otherwise the format chosen is the last matching one in
  declared order (the first in reverse order), and when \<open>format_size\<close> returns a string
  for its size, the keyboard is the video buttons followed by exactly one audio button
  for that format, and with a title that is a string this keyboard is the grid the
  handler sends. In every case a keyboard holds at most one audio button.
\<close>

theorem audio_button_for_last_match:
  "(video_buttons vid fmts = Inr kv \<and> (\<forall>f\<in>set fmts. \<not> audio_filter f) \<longrightarrow>
      build_keyboard vid fmts = Inr kv) \<and>
   (video_buttons vid fmts = Inr kv \<and>
    fmts = pre @ f # post \<and> audio_filter f \<and> (\<forall>g\<in>set post. \<not> audio_filter g) \<and>
    format_size (file_size f) = Inr sz \<longrightarrow>
      build_keyboard vid fmts =
        Inr (kv @ [[\<lparr>label = music_note @ '' Audio '' @ sz,
                     callback_data = audio_token vid (format_id f)\<rparr>]]) \<and>
      (formats_of info = Inr fmts \<and> str_opt (video_id info) = vid \<and> title_of info = PyStr s \<longrightarrow>
         snd (url_handler (Inr info) ud) =
           [ReplyText msg_processing, DeleteProcessingMessage,
            if truthy_str (thumbnail info)
            then ReplyPhoto (the (thumbnail info)) (''*'' @ escape_markdown_v2 s @ ''*'')
                   (kv @ [[\<lparr>label = music_note @ '' Audio '' @ sz,
                            callback_data = audio_token vid (format_id f)\<rparr>]])
            else ReplyTextMarkup (''*'' @ escape_markdown_v2 s @ ''*'')
                   (kv @ [[\<lparr>label = music_note @ '' Audio '' @ sz,
                            callback_data = audio_token vid (format_id f)\<rparr>]])])) \<and>
   (build_keyboard vid fmts = Inr kb \<longrightarrow>
      (\<exists>kv ka. video_buttons vid fmts = Inr kv \<and> audio_buttons vid fmts = Inr ka \<and>
         kb = kv @ ka \<and> length ka \<le> 1 \<and> (\<forall>row\<in>set ka. length row = 1)))"
proof (intro conjI impI)
  assume "video_buttons vid fmts = Inr kv \<and> (\<forall>f\<in>set fmts. \<not> audio_filter f)"
  then show "build_keyboard vid fmts = Inr kv"
    using audio_buttons_empty_iff [of vid fmts] by (simp add: build_keyboard_def)
next
  assume a: "video_buttons vid fmts = Inr kv \<and>
    fmts = pre @ f # post \<and> audio_filter f \<and> (\<forall>g\<in>set post. \<not> audio_filter g) \<and>
    format_size (file_size f) = Inr sz"
  then have vb: "video_buttons vid fmts = Inr kv"
    by (rule conjunct1)
  from a have m: "fmts = pre @ f # post" "audio_filter f" "\<forall>g\<in>set post. \<not> audio_filter g"
    "format_size (file_size f) = Inr sz"
    by blast+
  have ab: "audio_buttons vid fmts =
      Inr [[\<lparr>label = music_note @ '' Audio '' @ sz,
             callback_data = audio_token vid (format_id f)\<rparr>]]"
    unfolding m(1) by (rule audio_buttons_last [OF m(2,3,4)])
  show kb: "build_keyboard vid fmts =
        Inr (kv @ [[\<lparr>label = music_note @ '' Audio '' @ sz,
                     callback_data = audio_token vid (format_id f)\<rparr>]])"
    unfolding build_keyboard_def vb ab by simp
  assume "formats_of info = Inr fmts \<and> str_opt (video_id info) = vid \<and> title_of info = PyStr s"
  with kb show "snd (url_handler (Inr info) ud) =
           [ReplyText msg_processing, DeleteProcessingMessage,
            if truthy_str (thumbnail info)
            then ReplyPhoto (the (thumbnail info)) (''*'' @ escape_markdown_v2 s @ ''*'')
                   (kv @ [[\<lparr>label = music_note @ '' Audio '' @ sz,
                            callback_data = audio_token vid (format_id f)\<rparr>]])
            else ReplyTextMarkup (''*'' @ escape_markdown_v2 s @ ''*'')
                   (kv @ [[\<lparr>label = music_note @ '' Audio '' @ sz,
                            callback_data = audio_token vid (format_id f)\<rparr>]])]"
    by (simp add: url_handler_def Let_def caption_of_def)
next
  assume "build_keyboard vid fmts = Inr kb"
  then obtain kv ka where k: "video_buttons vid fmts = Inr kv" "audio_buttons vid fmts = Inr ka"
    "kb = kv @ ka"
    by (auto simp: build_keyboard_def split: sum.splits)
  from k(2) have "length ka \<le> 1 \<and> (\<forall>row\<in>set ka. length row = 1)"
    by (auto simp: audio_buttons_def split: option.splits sum.splits)
  with k show "\<exists>kv ka. video_buttons vid fmts = Inr kv \<and> audio_buttons vid fmts = Inr ka \<and>
         kb = kv @ ka \<and> length ka \<le> 1 \<and> (\<forall>row\<in>set ka. length row = 1)"
    by blast
qed

lemma example_split:
  "example_formats =
     take 5 example_formats @
     \<lparr>vcodec = Some ''none'', acodec = Some ''mp4a.40.2'', ext = Some ''m4a'', height = None,
       filesize = Some 1536, filesize_approx = None, format_id = ''140''\<rparr> # []"
  by (simp add: example_formats_def)

lemma example_video_only:
  "video_buttons ''abc123''
     [\<lparr>vcodec = Some ''avc1'', acodec = Some ''none'', ext = Some ''mp4'', height = Some 720,
       filesize = None, filesize_approx = Some 1048576, format_id = ''136''\<rparr>] =
   Inr [[\<lparr>label = clapper @ '' 720p (1.0 MB)'', callback_data = ''video:abc123:720''\<rparr>]]"
  by (simp add: fmt_eval format_size_eval video_buttons_def video_formats_def video_button_def
      video_token_def)

theorem audio_button_for_last_match_witness:
  "build_keyboard ''abc123''
     [\<lparr>vcodec = Some ''avc1'', acodec = Some ''none'', ext = Some ''mp4'', height = Some 720,
       filesize = None, filesize_approx = Some 1048576, format_id = ''136''\<rparr>] =
     Inr [[\<lparr>label = clapper @ '' 720p (1.0 MB)'', callback_data = ''video:abc123:720''\<rparr>]] \<and>
   build_keyboard ''abc123'' example_formats =
     Inr [[\<lparr>label = clapper @ '' 1080p (4.77 MB)'', callback_data = ''video:abc123:1080''\<rparr>],
          [\<lparr>label = clapper @ '' 720p (1.0 MB)'', callback_data = ''video:abc123:720''\<rparr>],
          [\<lparr>label = music_note @ '' Audio (1.5 KB)'', callback_data = ''audio:abc123:140''\<rparr>]] \<and>
   snd (url_handler (Inr \<lparr>title = Value ''Clip'', thumbnail = None, video_id = Some ''abc123'',
                          formats = Value example_formats\<rparr>) Map.empty) =
     [ReplyText msg_processing, DeleteProcessingMessage,
      ReplyTextMarkup ''*Clip*''
        [[\<lparr>label = clapper @ '' 1080p (4.77 MB)'', callback_data = ''video:abc123:1080''\<rparr>],
         [\<lparr>label = clapper @ '' 720p (1.0 MB)'', callback_data = ''video:abc123:720''\<rparr>],
         [\<lparr>label = music_note @ '' Audio (1.5 KB)'', callback_data = ''audio:abc123:140''\<rparr>]]]"
proof -
  have sz: "format_size (file_size
      \<lparr>vcodec = Some ''none'', acodec = Some ''mp4a.40.2'', ext = Some ''m4a'', height = None,
       filesize = Some 1536, filesize_approx = None, format_id = ''140''\<rparr>) = Inr ''(1.5 KB)''"
    by (simp add: fmt_eval format_size_eval)
  have af: "audio_filter
      \<lparr>vcodec = Some ''none'', acodec = Some ''mp4a.40.2'', ext = Some ''m4a'', height = None,
       filesize = Some 1536, filesize_approx = None, format_id = ''140''\<rparr>"
    by (simp add: fmt_eval)
  have v: "build_keyboard ''abc123''
     [\<lparr>vcodec = Some ''avc1'', acodec = Some ''none'', ext = Some ''mp4'', height = Some 720,
       filesize = None, filesize_approx = Some 1048576, format_id = ''136''\<rparr>] =
     Inr [[\<lparr>label = clapper @ '' 720p (1.0 MB)'', callback_data = ''video:abc123:720''\<rparr>]]"
    using audio_button_for_last_match
      [of "''abc123''"
        "[\<lparr>vcodec = Some ''avc1'', acodec = Some ''none'', ext = Some ''mp4'', height = Some 720,
       filesize = None, filesize_approx = Some 1048576, format_id = ''136''\<rparr>]"
        "[[\<lparr>label = clapper @ '' 720p (1.0 MB)'', callback_data = ''video:abc123:720''\<rparr>]]"]
      example_video_only
    by (simp add: fmt_eval)
  have a: "build_keyboard ''abc123'' example_formats =
     Inr [[\<lparr>label = clapper @ '' 1080p (4.77 MB)'', callback_data = ''video:abc123:1080''\<rparr>],
          [\<lparr>label = clapper @ '' 720p (1.0 MB)'', callback_data = ''video:abc123:720''\<rparr>],
          [\<lparr>label = music_note @ '' Audio (1.5 KB)'', callback_data = ''audio:abc123:140''\<rparr>]] \<and>
   snd (url_handler (Inr \<lparr>title = Value ''Clip'', thumbnail = None, video_id = Some ''abc123'',
                          formats = Value example_formats\<rparr>) Map.empty) =
     [ReplyText msg_processing, DeleteProcessingMessage,
      ReplyTextMarkup ''*Clip*''
        [[\<lparr>label = clapper @ '' 1080p (4.77 MB)'', callback_data = ''video:abc123:1080''\<rparr>],
         [\<lparr>label = clapper @ '' 720p (1.0 MB)'', callback_data = ''video:abc123:720''\<rparr>],
         [\<lparr>label = music_note @ '' Audio (1.5 KB)'', callback_data = ''audio:abc123:140''\<rparr>]]]"
    using audio_button_for_last_match
      [of "''abc123''" example_formats
        "[[\<lparr>label = clapper @ '' 1080p (4.77 MB)'', callback_data = ''video:abc123:1080''\<rparr>],
          [\<lparr>label = clapper @ '' 720p (1.0 MB)'', callback_data = ''video:abc123:720''\<rparr>]]"
        "take 5 example_formats"
        "\<lparr>vcodec = Some ''none'', acodec = Some ''mp4a.40.2'', ext = Some ''m4a'', height = None,
       filesize = Some 1536, filesize_approx = None, format_id = ''140''\<rparr>"
        "[]" "''(1.5 KB)''"
        "\<lparr>title = Value ''Clip'', thumbnail = None, video_id = Some ''abc123'',
          formats = Value example_formats\<rparr>" "''Clip''" Map.empty]
      example_video_buttons example_split sz af
    by (simp add: audio_token_def formats_of_def title_of_def str_opt_def truthy_str_def
        escape_markdown_v2_def escape_chars_def)
  from v a show ?thesis by simp
qed

text \<open>
  C8 as the spec states it fails on a matching audio format of \<open>1024 ^ 4\<close> bytes:
  there is no video button to build, the format is chosen, but rendering its size raises
  IndexError, no button is produced and the placeholder is edited to the generic error
  message.
\<close>

theorem audio_button_size_counterexample:
  "audio_filter \<lparr>vcodec = Some ''none'', acodec = Some ''mp4a.40.2'', ext = Some ''m4a'',
      height = None, filesize = Some (1024 ^ 4), filesize_approx = None, format_id = ''140''\<rparr> \<and>
   video_buttons ''abc123''
     [\<lparr>vcodec = Some ''none'', acodec = Some ''mp4a.40.2'', ext = Some ''m4a'',
       height = None, filesize = Some (1024 ^ 4), filesize_approx = None, format_id = ''140''\<rparr>]
     = Inr [] \<and>
   build_keyboard ''abc123''
     [\<lparr>vcodec = Some ''none'', acodec = Some ''mp4a.40.2'', ext = Some ''m4a'',
       height = None, filesize = Some (1024 ^ 4), filesize_approx = None, format_id = ''140''\<rparr>]
     = Inl IndexError \<and>
   snd (url_handler (Inr \<lparr>title = Value ''Clip'', thumbnail = None, video_id = Some ''abc123'',
      formats = Value [\<lparr>vcodec = Some ''none'', acodec = Some ''mp4a.40.2'', ext = Some ''m4a'',
       height = None, filesize = Some (1024 ^ 4), filesize_approx = None,
       format_id = ''140''\<rparr>]\<rparr>)
      Map.empty) = [ReplyText msg_processing, EditText msg_unexpected]"
  by (simp add: fmt_eval audio_buttons_def best_audio_def format_size_eval url_handler_def
      build_keyboard_def video_buttons_def video_formats_def str_opt_def title_of_def
      formats_of_def extraction_error_message_def)

end
